theory Spec2Isabelle
  imports Main
begin

section \<open>Strings and JavaScript values as server.js uses them\<close>

text \<open>
  The wrapper is one file, \<^verbatim>\<open>src/server.js\<close>. A JavaScript string is modelled as a
  \<^typ>\<open>string\<close>; every pattern of the file is ASCII, so a character is a code unit below
  256. A value that may be \<^verbatim>\<open>undefined\<close> is an \<^typ>\<open>'a option\<close>.
\<close>

definition is_js_space :: "char \<Rightarrow> bool" where
  \<comment> \<open>White space and line terminators of \<^verbatim>\<open>String.prototype.trim\<close> and \<^verbatim>\<open>\s\<close>,
      below code unit 256: TAB, LF, VT, FF, CR, SPACE, NBSP.\<close>
  "is_js_space c =
     (c = CHR 0x09 \<or> c = CHR 0x0A \<or> c = CHR 0x0B \<or> c = CHR 0x0C \<or> c = CHR 0x0D \<or>
      c = CHR 0x20 \<or> c = CHR 0xA0)"

definition trim :: "string \<Rightarrow> string" where
  "trim s = rev (dropWhile is_js_space (rev (dropWhile is_js_space s)))"

definition starts_with :: "string \<Rightarrow> string \<Rightarrow> bool" where
  \<comment> \<open>\<^verbatim>\<open>s.startsWith(p)\<close>\<close>
  "starts_with s p = (take (length p) s = p)"

fun split_on :: "char \<Rightarrow> string \<Rightarrow> string list" where
  \<comment> \<open>\<^verbatim>\<open>s.split(c)\<close> for a separator of one character; the empty string gives one empty piece.\<close>
  "split_on c [] = [[]]"
| "split_on c (x # xs) =
     (if x = c then [] # split_on c xs
      else (case split_on c xs of [] \<Rightarrow> [[x]] | w # ws \<Rightarrow> (x # w) # ws))"

definition truthy :: "string option \<Rightarrow> bool" where
  \<comment> \<open>JavaScript truthiness of a value that is a string or \<^verbatim>\<open>undefined\<close>.\<close>
  "truthy v = (case v of None \<Rightarrow> False | Some s \<Rightarrow> s \<noteq> [])"

definition or_empty :: "string option \<Rightarrow> string" where
  \<comment> \<open>\<^verbatim>\<open>v || ""\<close>\<close>
  "or_empty v = (case v of None \<Rightarrow> [] | Some s \<Rightarrow> s)"

definition is_digit :: "char \<Rightarrow> bool" where
  \<comment> \<open>\<^verbatim>\<open>[0-9]\<close>, by code unit\<close>
  "is_digit c = (48 \<le> (of_char c :: nat) \<and> (of_char c :: nat) \<le> 57)"

definition is_alpha :: "char \<Rightarrow> bool" where
  \<comment> \<open>\<^verbatim>\<open>[A-Za-z]\<close>, by code unit\<close>
  "is_alpha c =
     ((65 \<le> (of_char c :: nat) \<and> (of_char c :: nat) \<le> 90) \<or>
      (97 \<le> (of_char c :: nat) \<and> (of_char c :: nat) \<le> 122))"

section \<open>requireSetupAuth (server.js 274-296)\<close>

record http_response =
  status :: nat
  content_type :: "string option"
  www_authenticate :: "string option"
  body :: string

datatype auth_outcome = Next | Respond http_response

definition SETUP_PASSWORD :: "string option \<Rightarrow> string option" where
  \<comment> \<open>\<^verbatim>\<open>process.env.SETUP_PASSWORD?.trim()\<close>; the argument is the environment variable.\<close>
  "SETUP_PASSWORD env = map_option trim env"

definition basic_realm :: string where
  "basic_realm = ''Basic realm='' @ [CHR 0x22] @ ''OpenClaw Setup'' @ [CHR 0x22]"

definition password_of :: "string \<Rightarrow> string" where
  \<comment> \<open>\<^verbatim>\<open>idx = decoded.indexOf(":"); idx >= 0 ? decoded.slice(idx + 1) : ""\<close>\<close>
  "password_of decoded =
     (case dropWhile (\<lambda>c. c \<noteq> CHR '':'') decoded of [] \<Rightarrow> [] | _ # rest \<Rightarrow> rest)"

definition requireSetupAuth ::
  "string option \<Rightarrow> (string \<Rightarrow> string) \<Rightarrow> string option \<Rightarrow> auth_outcome" where
  \<comment> \<open>Arguments: the constant \<^verbatim>\<open>SETUP_PASSWORD\<close>, the base64 decoder of \<^verbatim>\<open>Buffer.from\<close>,
      and \<^verbatim>\<open>req.headers.authorization\<close>.\<close>
  "requireSetupAuth pw b64 authorization =
     (if \<not> truthy pw then
        Respond \<lparr>status = 500, content_type = Some ''text/plain'', www_authenticate = None,
          body = ''SETUP_PASSWORD is not set. Set it in Railway Variables before using /setup.''\<rparr>
      else
        (let parts = split_on CHR 0x20 (or_empty authorization);
             scheme = (case parts of [] \<Rightarrow> None | s # _ \<Rightarrow> Some s);
             encoded = (case parts of _ # e # _ \<Rightarrow> Some e | _ \<Rightarrow> None)
         in if scheme \<noteq> Some ''Basic'' \<or> \<not> truthy encoded then
              Respond \<lparr>status = 401, content_type = None, www_authenticate = Some basic_realm,
                body = ''Auth required''\<rparr>
            else if Some (password_of (b64 (or_empty encoded))) \<noteq> pw then
              Respond \<lparr>status = 401, content_type = None, www_authenticate = Some basic_realm,
                body = ''Invalid password''\<rparr>
            else Next))"

definition setup_route ::
  "string option \<Rightarrow> (string \<Rightarrow> string) \<Rightarrow> string option \<Rightarrow> 'a \<Rightarrow> http_response + 'a" where
  \<comment> \<open>\<^verbatim>\<open>app.get(path, requireSetupAuth, handler)\<close>: Express runs the handler only when the
      middleware calls \<^verbatim>\<open>next()\<close>. The last argument is what the handler would do.\<close>
  "setup_route env b64 authorization handler =
     (case requireSetupAuth (SETUP_PASSWORD env) b64 authorization of
        Respond r \<Rightarrow> Inl r
      | Next \<Rightarrow> Inr handler)"

section \<open>attachGatewayAuthHeader (server.js 1452-1460)\<close>

type_synonym headers = "string \<rightharpoonup> string"

definition attachGatewayAuthHeader :: "string \<Rightarrow> headers \<Rightarrow> headers" where
  \<comment> \<open>The first argument is the constant \<^verbatim>\<open>OPENCLAW_GATEWAY_TOKEN\<close>; Node stores header
      names in lower case. The request is mutated in place; the model returns its headers.\<close>
  "attachGatewayAuthHeader token hs =
     (if \<not> truthy (hs ''authorization'') \<and> token \<noteq> []
      then hs(''authorization'' \<mapsto> ''Bearer '' @ token)
      else hs)"

section \<open>redactSecrets (server.js 1068-1078)\<close>

text \<open>
  Each \<^verbatim>\<open>.replace(/(...)/g, "[REDACTED]")\<close> scans the text from the left. At a position the
  pattern either matches, and then the greedy quantifiers take the longest run (no shorter
  run can succeed, since the character that must follow a run is outside its class), or it
  does not, and the character is copied. A matcher returns the length of the match at the
  head of its argument.
\<close>

definition cls_key :: "char \<Rightarrow> bool" where
  \<comment> \<open>\<^verbatim>\<open>[A-Za-z0-9_-]\<close>\<close>
  "cls_key c = (is_alpha c \<or> is_digit c \<or> c = CHR ''_'' \<or> c = CHR ''-'')"

definition cls_gho :: "char \<Rightarrow> bool" where
  \<comment> \<open>\<^verbatim>\<open>[A-Za-z0-9_]\<close>\<close>
  "cls_gho c = (is_alpha c \<or> is_digit c \<or> c = CHR ''_'')"

definition cls_xox :: "char \<Rightarrow> bool" where
  \<comment> \<open>\<^verbatim>\<open>[A-Za-z0-9-]\<close>\<close>
  "cls_xox c = (is_alpha c \<or> is_digit c \<or> c = CHR ''-'')"

definition match_sk :: "string \<Rightarrow> nat option" where
  \<comment> \<open>\<^verbatim>\<open>sk-[A-Za-z0-9_-]{10,}\<close>\<close>
  "match_sk s =
     (let r = takeWhile cls_key (drop 3 s)
      in if starts_with s ''sk-'' \<and> 10 \<le> length r then Some (3 + length r) else None)"

definition match_gho :: "string \<Rightarrow> nat option" where
  \<comment> \<open>\<^verbatim>\<open>gho_[A-Za-z0-9_]{10,}\<close>\<close>
  "match_gho s =
     (let r = takeWhile cls_gho (drop 4 s)
      in if starts_with s ''gho_'' \<and> 10 \<le> length r then Some (4 + length r) else None)"

definition match_xox :: "string \<Rightarrow> nat option" where
  \<comment> \<open>\<^verbatim>\<open>xox[baprs]-[A-Za-z0-9-]{10,}\<close>\<close>
  "match_xox s =
     (let r = takeWhile cls_xox (drop 5 s)
      in if starts_with s ''xox'' \<and> (\<exists>k \<in> set ''baprs''. take 2 (drop 3 s) = [k, CHR ''-''])
            \<and> 10 \<le> length r
         then Some (5 + length r) else None)"

definition match_telegram :: "string \<Rightarrow> nat option" where
  \<comment> \<open>\<^verbatim>\<open>\d{5,}:[A-Za-z0-9_-]{10,}\<close>\<close>
  "match_telegram s =
     (let d = takeWhile is_digit s;
          r = takeWhile cls_key (drop (length d + 1) s)
      in if 5 \<le> length d \<and> take 1 (drop (length d) s) = '':'' \<and> 10 \<le> length r
         then Some (length d + 1 + length r) else None)"

definition match_aa :: "string \<Rightarrow> nat option" where
  \<comment> \<open>\<^verbatim>\<open>AA[A-Za-z0-9_-]{10,}:\S{10,}\<close>\<close>
  "match_aa s =
     (let k = takeWhile cls_key (drop 2 s);
          r = takeWhile (\<lambda>c. \<not> is_js_space c) (drop (2 + length k + 1) s)
      in if starts_with s ''AA'' \<and> 10 \<le> length k \<and> take 1 (drop (2 + length k) s) = '':''
            \<and> 10 \<le> length r
         then Some (2 + length k + 1 + length r) else None)"

function replace_all :: "(string \<Rightarrow> nat option) \<Rightarrow> string \<Rightarrow> string" where
  \<comment> \<open>\<^verbatim>\<open>text.replace(/re/g, "[REDACTED]")\<close>; after a match of length \<open>n\<close> (never 0 for the
      patterns above) the scan goes on behind it.\<close>
  "replace_all m [] = []"
| "replace_all m (x # xs) =
     (case m (x # xs) of
        Some n \<Rightarrow> ''[REDACTED]'' @ replace_all m (drop (n - 1) xs)
      | None \<Rightarrow> x # replace_all m xs)"
  by pat_completeness auto
termination
  by (relation "measure (\<lambda>(m, s). length s)") auto

definition redactSecrets :: "string \<Rightarrow> string" where
  "redactSecrets text =
     (if text = [] then text
      else replace_all match_aa (replace_all match_telegram (replace_all match_xox
             (replace_all match_gho (replace_all match_sk text)))))"

text \<open>
  What redaction is for: a text is free of a pattern when the pattern matches at none of its
  positions, and a token has a secret's shape when one of the first four patterns matches
  it as a whole.
\<close>

definition quiet :: "(string \<Rightarrow> nat option) \<Rightarrow> string \<Rightarrow> bool" where
  "quiet M t = (\<forall>k. M (drop k t) = None)"

definition sk_token :: "string \<Rightarrow> bool" where
  "sk_token tok =
     (take 3 tok = ''sk-'' \<and> 10 \<le> length (drop 3 tok) \<and> list_all cls_key (drop 3 tok))"

definition gho_token :: "string \<Rightarrow> bool" where
  "gho_token tok =
     (take 4 tok = ''gho_'' \<and> 10 \<le> length (drop 4 tok) \<and> list_all cls_gho (drop 4 tok))"

definition xox_token :: "string \<Rightarrow> bool" where
  "xox_token tok =
     ((\<exists>k \<in> set ''baprs''. take 5 tok = ''xox'' @ [k, CHR ''-''])
      \<and> 10 \<le> length (drop 5 tok) \<and> list_all cls_xox (drop 5 tok))"

definition telegram_token :: "string \<Rightarrow> bool" where
  "telegram_token tok =
     (let d = takeWhile is_digit tok
      in 5 \<le> length d \<and> take 1 (drop (length d) tok) = '':''
         \<and> 10 \<le> length (drop (length d + 1) tok)
         \<and> list_all cls_key (drop (length d + 1) tok))"

definition secret_token :: "string \<Rightarrow> bool" where
  "secret_token tok = (sk_token tok \<or> gho_token tok \<or> xox_token tok \<or> telegram_token tok)"

section \<open>Numbers in command arguments\<close>

definition digit_val :: "char \<Rightarrow> int" where
  "digit_val c = int (of_char c) - 48"

definition parseInt10 :: "string \<Rightarrow> int option" where
  \<comment> \<open>\<^verbatim>\<open>Number.parseInt(s, 10)\<close>: leading white space, an optional sign, the longest run of
      digits; \<open>None\<close> is \<^verbatim>\<open>NaN\<close>. The value is exact here; the double that JavaScript
      returns differs from it only beyond \<open>2^53\<close>, where the clamp below gives the same.\<close>
  "parseInt10 s =
     (let t = dropWhile is_js_space s;
          neg = (take 1 t = ''-'');
          u = (if take 1 t = ''-'' \<or> take 1 t = ''+'' then drop 1 t else t);
          ds = takeWhile is_digit u;
          v = foldl (\<lambda>a c. 10 * a + digit_val c) 0 ds
      in if ds = [] then None else Some (if neg then - v else v))"

definition digit_char :: "nat \<Rightarrow> char" where
  \<comment> \<open>the decimal digit of a number below ten\<close>
  "digit_char d = ''0123456789'' ! d"

fun show_nat :: "nat \<Rightarrow> string" where
  \<comment> \<open>\<^verbatim>\<open>String(n)\<close> for a natural number: its decimal digits\<close>
  "show_nat n =
     (if n < 10 then [digit_char n] else show_nat (n div 10) @ [digit_char (n mod 10)])"

declare show_nat.simps [simp del]

definition String_of_int :: "int \<Rightarrow> string" where
  \<comment> \<open>\<^verbatim>\<open>String(n)\<close> for an integer\<close>
  "String_of_int i = (if i < 0 then CHR ''-'' # show_nat (nat (- i)) else show_nat (nat i))"

definition tail_lines :: "string \<Rightarrow> int" where
  \<comment> \<open>\<^verbatim>\<open>Math.max(50, Math.min(1000, Number.parseInt(arg || "200", 10) || 200))\<close>\<close>
  "tail_lines arg =
     (let n = (case parseInt10 (if arg = [] then ''200'' else arg) of
                 None \<Rightarrow> 200
               | Some k \<Rightarrow> if k = 0 then 200 else k)
      in max 50 (min 1000 n))"

definition safe_ident :: "string \<Rightarrow> bool" where
  \<comment> \<open>\<^verbatim>\<open>/^[A-Za-z0-9_-]+$/.test(s)\<close>\<close>
  "safe_ident s = (s \<noteq> [] \<and> list_all cls_key s)"

section \<open>Archive paths: isUnderDir and looksSafeTarPath (server.js 1344-1359)\<close>


fun join_with :: "string \<Rightarrow> string list \<Rightarrow> string" where
  \<comment> \<open>\<^verbatim>\<open>pieces.join(sep)\<close>\<close>
  "join_with sep [] = []"
| "join_with sep [g] = g"
| "join_with sep (g # h # gs) = g @ sep @ join_with sep (h # gs)"





section \<open>What a handler does: effects, and the outcomes it awaits\<close>

record cmd_result =
  code :: int
  cmd_output :: string  \<comment> \<open>the field \<^verbatim>\<open>output\<close>\<close>

datatype ensure_result = Ok | NotStarted string
  \<comment> \<open>\<^verbatim>\<open>{ ok: true }\<close> and \<^verbatim>\<open>{ ok: false, reason }\<close>\<close>

datatype ensure_outcome = Resolved ensure_result | Rejected string
  \<comment> \<open>what \<^verbatim>\<open>await ensureGatewayRunning()\<close> gives: a value, or a thrown error as \<^verbatim>\<open>String(err)\<close>\<close>

datatype effect =
    RunCmd string "string list"  \<comment> \<open>\<^verbatim>\<open>runCmd(cmd, args)\<close>: an external process is spawned\<close>
  | CallEnsureGatewayRunning
  | CallRestartGateway
  | KillGateway  \<comment> \<open>\<^verbatim>\<open>gatewayProc.kill("SIGTERM")\<close>\<close>
  | Sleep nat
  | ClearGatewayProc  \<comment> \<open>\<^verbatim>\<open>gatewayProc = null\<close>\<close>
  | WriteFile string  \<comment> \<open>\<^verbatim>\<open>fs.writeFileSync(path, buf)\<close>\<close>
  | TarExtract string string "string \<Rightarrow> bool"
      \<comment> \<open>\<^verbatim>\<open>tar.x({ file, cwd, gzip: true, strict: true, filter })\<close>: the call of the archive
          library, with the archive file, the directory and the filter callback it is given\<close>
  | RemoveFile string

record world =
  OPENCLAW_NODE :: string
  OPENCLAW_ENTRY :: string
  OPENCLAW_GATEWAY_TOKEN :: string
  GATEWAY_TARGET :: string
  STATE_DIR :: string
  WORKSPACE_DIR :: string
  process_cwd :: string
  isConfigured :: bool  \<comment> \<open>\<^verbatim>\<open>isConfigured()\<close> when the handler starts\<close>
  gatewayProc :: bool  \<comment> \<open>whether \<^verbatim>\<open>gatewayProc\<close> is non-null when the handler reads it\<close>
  lastGatewayError :: "string option"
  runCmd_result :: "string \<Rightarrow> string list \<Rightarrow> cmd_result"
    \<comment> \<open>what the promise of \<^verbatim>\<open>runCmd\<close> resolves to\<close>
  ensure_result :: ensure_outcome  \<comment> \<open>what \<^verbatim>\<open>await ensureGatewayRunning()\<close> gives\<close>
  restart_result :: ensure_outcome  \<comment> \<open>what \<^verbatim>\<open>await restartGateway()\<close> gives\<close>

definition clawArgs :: "world \<Rightarrow> string list \<Rightarrow> string list" where
  "clawArgs w args = OPENCLAW_ENTRY w # args"

section \<open>The debug console (server.js 1090-1201)\<close>

definition ALLOWED_CONSOLE_COMMANDS :: "string list" where
  "ALLOWED_CONSOLE_COMMANDS =
     [''gateway.restart'', ''gateway.stop'', ''gateway.start'',
      ''openclaw.version'', ''openclaw.status'', ''openclaw.health'', ''openclaw.doctor'',
      ''openclaw.logs.tail'', ''openclaw.config.get'',
      ''openclaw.devices.list'', ''openclaw.devices.approve'',
      ''openclaw.plugins.list'', ''openclaw.plugins.enable'']"

datatype json_body =
    Output bool string  \<comment> \<open>\<^verbatim>\<open>{ ok, output }\<close>\<close>
  | Error string  \<comment> \<open>\<^verbatim>\<open>{ ok: false, error }\<close>\<close>

type_synonym handled = "effect list \<times> nat \<times> json_body"
  \<comment> \<open>the effects in order, the HTTP status, the JSON body\<close>

definition claw_reply :: "world \<Rightarrow> string list \<Rightarrow> handled" where
  \<comment> \<open>The two lines every CLI branch ends with:
      \<^verbatim>\<open>r = await runCmd(OPENCLAW_NODE, clawArgs(args));\<close>
      \<^verbatim>\<open>return res.status(r.code === 0 ? 200 : 500).json({ ok: r.code === 0, output: redactSecrets(r.output) })\<close>\<close>
  "claw_reply w args =
     (let r = runCmd_result w (OPENCLAW_NODE w) (clawArgs w args)
      in ([RunCmd (OPENCLAW_NODE w) (clawArgs w args)],
          if code r = 0 then 200 else 500,
          Output (code r = 0) (redactSecrets (cmd_output r))))"

definition stop_gateway :: "world \<Rightarrow> effect list" where
  \<comment> \<open>\<^verbatim>\<open>if (gatewayProc) { try { gatewayProc.kill("SIGTERM") } catch {}; await sleep(750); gatewayProc = null }\<close>\<close>
  "stop_gateway w = (if gatewayProc w then [KillGateway, Sleep 750, ClearGatewayProc] else [])"

definition console_run :: "world \<Rightarrow> string option \<Rightarrow> string option \<Rightarrow> handled" where
  \<comment> \<open>The handler of \<^verbatim>\<open>POST /setup/api/console/run\<close>; the arguments after the world are
      \<^verbatim>\<open>payload.cmd\<close> and \<^verbatim>\<open>payload.arg\<close>.\<close>
  "console_run w payload_cmd payload_arg =
     (let cmd = trim (or_empty payload_cmd); arg = trim (or_empty payload_arg)
      in if cmd \<notin> set ALLOWED_CONSOLE_COMMANDS then ([], 400, Error ''Command not allowed'')
      else if cmd = ''gateway.restart'' then
        (case restart_result w of
           Rejected e \<Rightarrow> ([CallRestartGateway], 500, Error e)
         | Resolved _ \<Rightarrow>
             ([CallRestartGateway], 200,
              Output True (''Gateway restarted (wrapper-managed).'' @ [CHR 0x0A])))
      else if cmd = ''gateway.stop'' then
        (stop_gateway w, 200, Output True (''Gateway stopped (wrapper-managed).'' @ [CHR 0x0A]))
      else if cmd = ''gateway.start'' then
        (case ensure_result w of
           Rejected e \<Rightarrow> ([CallEnsureGatewayRunning], 500, Error e)
         | Resolved Ok \<Rightarrow>
             ([CallEnsureGatewayRunning], 200, Output True (''Gateway started.'' @ [CHR 0x0A]))
         | Resolved (NotStarted reason) \<Rightarrow>
             ([CallEnsureGatewayRunning], 200,
              Output False (''Gateway not started: '' @ reason @ [CHR 0x0A])))
      else if cmd = ''openclaw.version'' then claw_reply w [''--version'']
      else if cmd = ''openclaw.status'' then claw_reply w [''status'']
      else if cmd = ''openclaw.health'' then claw_reply w [''health'']
      else if cmd = ''openclaw.doctor'' then claw_reply w [''doctor'']
      else if cmd = ''openclaw.logs.tail'' then
        claw_reply w [''logs'', ''--tail'', String_of_int (tail_lines arg)]
      else if cmd = ''openclaw.config.get'' then
        (if arg = [] then ([], 400, Error ''Missing config path'')
         else claw_reply w [''config'', ''get'', arg])
      else if cmd = ''openclaw.devices.list'' then claw_reply w [''devices'', ''list'']
      else if cmd = ''openclaw.devices.approve'' then
        (let requestId = trim arg
         in if requestId = [] then ([], 400, Error ''Missing device request ID'')
            else if \<not> safe_ident requestId then ([], 400, Error ''Invalid device request ID'')
            else claw_reply w [''devices'', ''approve'', requestId])
      else if cmd = ''openclaw.plugins.list'' then claw_reply w [''plugins'', ''list'']
      else if cmd = ''openclaw.plugins.enable'' then
        (let name = trim arg
         in if name = [] then ([], 400, Error ''Missing plugin name'')
            else if \<not> safe_ident name then ([], 400, Error ''Invalid plugin name'')
            else claw_reply w [''plugins'', ''enable'', name])
      else ([], 400, Error ''Unhandled command''))"

section \<open>Pairing and device approval (server.js 1243-1266)\<close>

definition pairing_approve :: "world \<Rightarrow> string option \<Rightarrow> string option \<Rightarrow> handled" where
  \<comment> \<open>\<^verbatim>\<open>POST /setup/api/pairing/approve\<close>; the arguments are \<^verbatim>\<open>channel\<close> and \<^verbatim>\<open>code\<close> of the body.
      The output of the command is returned as it is.\<close>
  "pairing_approve w channel pcode =
     (if \<not> truthy channel then ([], 400, Error ''Missing channel or code'')
      else if \<not> truthy pcode then ([], 400, Error ''Missing channel or code'')
      else
        (let args = clawArgs w [''pairing'', ''approve'', or_empty channel, or_empty pcode];
             r = runCmd_result w (OPENCLAW_NODE w) args
         in ([RunCmd (OPENCLAW_NODE w) args],
             if code r = 0 then 200 else 500,
             Output (code r = 0) (cmd_output r))))"

definition devices_approve :: "world \<Rightarrow> string option \<Rightarrow> handled" where
  \<comment> \<open>\<^verbatim>\<open>POST /setup/api/devices/approve\<close>\<close>
  "devices_approve w body_requestId =
     (let requestId = trim (or_empty body_requestId)
      in if requestId = [] then ([], 400, Error ''Missing device request ID'')
         else if \<not> safe_ident requestId then ([], 400, Error ''Invalid device request ID'')
         else claw_reply w [''devices'', ''approve'', requestId])"

section \<open>runDoctorBestEffort (server.js 218-231)\<close>

record doctor_state =
  lastDoctorAt :: "int option"
  lastDoctorOutput :: "string option"

definition truncated_marker :: string where
  "truncated_marker = [CHR 0x0A] @ ''... (truncated)'' @ [CHR 0x0A]"

definition runDoctorBestEffort :: "world \<Rightarrow> int \<Rightarrow> doctor_state \<Rightarrow> effect list \<times> doctor_state" where
  \<comment> \<open>The second argument is \<^verbatim>\<open>Date.now()\<close>. \<^verbatim>\<open>runCmd\<close> never rejects, so the
      \<^verbatim>\<open>catch\<close> branch is not reached.\<close>
  "runDoctorBestEffort w now d =
     (if (case lastDoctorAt d of None \<Rightarrow> False | Some t \<Rightarrow> t \<noteq> 0 \<and> now - t < 5 * 60 * 1000)
      then ([], d)
      else
        (let args = clawArgs w [''doctor''];
             r = runCmd_result w (OPENCLAW_NODE w) args;
             out = redactSecrets (cmd_output r)
         in ([RunCmd (OPENCLAW_NODE w) args],
             d\<lparr>lastDoctorAt := Some now,
               lastDoctorOutput :=
                 Some (if length out > 50000 then take 50000 out @ truncated_marker else out)\<rparr>)))"

section \<open>Import of a backup (server.js 1379-1431)\<close>




section \<open>The proxy (server.js 1462-1486 and 1541-1554)\<close>

record request =
  req_path :: string
  req_headers :: headers

datatype proxy_action =
    Redirect string  \<comment> \<open>\<^verbatim>\<open>res.redirect(url)\<close>\<close>
  | SendText nat string  \<comment> \<open>\<^verbatim>\<open>res.status(n).type("text/plain").send(text)\<close>\<close>
  | ProxyWeb headers string  \<comment> \<open>\<^verbatim>\<open>proxy.web(req, res, { target })\<close> with the request's headers\<close>
  | SocketDestroy  \<comment> \<open>\<^verbatim>\<open>socket.destroy()\<close>\<close>
  | ProxyWs headers string  \<comment> \<open>\<^verbatim>\<open>proxy.ws(req, socket, head, { target })\<close>\<close>

definition not_ready_hint :: "world \<Rightarrow> string \<Rightarrow> string" where
  "not_ready_hint w err =
     join_with [CHR 0x0A]
       [''Gateway not ready.'',
        err,
        (case lastGatewayError w of
           None \<Rightarrow> []
         | Some e \<Rightarrow> if e = [] then [] else CHR 0x0A # e),
        CHR 0x0A # ''Troubleshooting:'',
        ''- Visit /setup and check the Debug Console'',
        ''- Visit /setup/api/debug for config + gateway diagnostics'']"

definition proxy_middleware :: "world \<Rightarrow> request \<Rightarrow> effect list \<times> proxy_action" where
  \<comment> \<open>The last \<^verbatim>\<open>app.use\<close>: every request no earlier route answered.\<close>
  "proxy_middleware w req =
     (if \<not> isConfigured w \<and> \<not> starts_with (req_path req) ''/setup'' then ([], Redirect ''/setup'')
      else if isConfigured w then
        (case ensure_result w of
           Rejected err \<Rightarrow> ([CallEnsureGatewayRunning], SendText 503 (not_ready_hint w err))
         | Resolved _ \<Rightarrow>
             ([CallEnsureGatewayRunning],
              ProxyWeb (attachGatewayAuthHeader (OPENCLAW_GATEWAY_TOKEN w) (req_headers req))
                (GATEWAY_TARGET w)))
      else
        ([], ProxyWeb (attachGatewayAuthHeader (OPENCLAW_GATEWAY_TOKEN w) (req_headers req))
               (GATEWAY_TARGET w)))"

definition upgrade_handler :: "world \<Rightarrow> request \<Rightarrow> effect list \<times> proxy_action" where
  \<comment> \<open>\<^verbatim>\<open>server.on("upgrade", ...)\<close>\<close>
  "upgrade_handler w req =
     (if \<not> isConfigured w then ([], SocketDestroy)
      else
        (case ensure_result w of
           Rejected err \<Rightarrow> ([CallEnsureGatewayRunning], SocketDestroy)
         | Resolved _ \<Rightarrow>
             ([CallEnsureGatewayRunning],
              ProxyWs (attachGatewayAuthHeader (OPENCLAW_GATEWAY_TOKEN w) (req_headers req))
                (GATEWAY_TARGET w))))"

section \<open>The gateway supervisor on the event loop (server.js 137-258)\<close>

text \<open>
  JavaScript runs one callback at a time, and an \<^verbatim>\<open>async\<close> function runs without
  interruption up to its next \<^verbatim>\<open>await\<close>. The supervisor is therefore a state machine over
  the module's variables, stepped by events: a caller invokes \<^verbatim>\<open>ensureGatewayRunning\<close>,
  the pending start attempt goes on after an \<^verbatim>\<open>await\<close>, the gateway process exits. Two
  counters that the program does not have are kept for the statements: how many processes
  were spawned and how many start attempts were made.
\<close>

datatype phase =
    AwaitingStart "string option"
      \<comment> \<open>at \<^verbatim>\<open>await startGateway()\<close>; the error, as \<^verbatim>\<open>String(err)\<close>, if it threw\<close>
  | WaitingReady  \<comment> \<open>at \<^verbatim>\<open>await waitForGatewayReady(...)\<close>\<close>
  | Diagnosing string  \<comment> \<open>in the \<^verbatim>\<open>catch\<close>, at \<^verbatim>\<open>await runDoctorBestEffort()\<close>, with the error to rethrow\<close>

datatype attempt_outcome = Fulfilled | RejectedWith string

datatype call_result =
    Returned ensure_result  \<comment> \<open>the call returned at once\<close>
  | Awaits nat  \<comment> \<open>the call is at \<^verbatim>\<open>await gatewayStarting\<close>, on the attempt of this number\<close>

record sup =
  sup_configured :: bool  \<comment> \<open>\<^verbatim>\<open>isConfigured()\<close>\<close>
  sup_mkdir_error :: "string option"  \<comment> \<open>the error \<^verbatim>\<open>fs.mkdirSync\<close> throws, if it does\<close>
  sup_gatewayProc :: "nat option"  \<comment> \<open>\<^verbatim>\<open>gatewayProc\<close>: the number of the process\<close>
  sup_gatewayStarting :: "(nat \<times> phase) option"
    \<comment> \<open>\<^verbatim>\<open>gatewayStarting\<close>: the number of the attempt and where its body stands\<close>
  sup_lastGatewayError :: "string option"
  sup_spawned :: nat  \<comment> \<open>calls of \<^verbatim>\<open>childProcess.spawn\<close> for the gateway so far\<close>
  sup_attempts :: nat  \<comment> \<open>start attempts so far\<close>
  sup_callers :: "call_result list"  \<comment> \<open>what each call so far got, in order\<close>
  sup_settled :: "(nat \<times> attempt_outcome) list"  \<comment> \<open>attempts that ended, and how\<close>

definition startGateway :: "sup \<Rightarrow> string + sup" where
  \<comment> \<open>The whole body runs at once: it holds no \<^verbatim>\<open>await\<close>. \<open>Inl\<close> is the error thrown.\<close>
  "startGateway s =
     (if sup_gatewayProc s \<noteq> None then Inr s
      else if \<not> sup_configured s then Inl ''Error: Gateway cannot start: not configured''
      else (case sup_mkdir_error s of
              Some e \<Rightarrow> Inl e
            | None \<Rightarrow>
                Inr (s\<lparr>sup_gatewayProc := Some (sup_spawned s),
                       sup_spawned := sup_spawned s + 1\<rparr>)))"

definition ensureGatewayRunning :: "sup \<Rightarrow> sup \<times> call_result" where
  \<comment> \<open>One call, up to its first \<^verbatim>\<open>await\<close> or its \<^verbatim>\<open>return\<close>.\<close>
  "ensureGatewayRunning s =
     (if \<not> sup_configured s then (s, Returned (NotStarted ''not configured''))
      else if sup_gatewayProc s \<noteq> None then (s, Returned Ok)
      else
        (case sup_gatewayStarting s of
           Some (k, ph) \<Rightarrow> (s, Awaits k)
         | None \<Rightarrow>
             (let s1 = s\<lparr>sup_lastGatewayError := None\<rparr>;
                  k = sup_attempts s;
                  s2 = (case startGateway s1 of
                          Inr t \<Rightarrow> t\<lparr>sup_gatewayStarting := Some (k, AwaitingStart None)\<rparr>
                        | Inl e \<Rightarrow> s1\<lparr>sup_gatewayStarting := Some (k, AwaitingStart (Some e))\<rparr>)
              in (s2\<lparr>sup_attempts := k + 1\<rparr>, Awaits k))))"

datatype sup_event =
    Call  \<comment> \<open>some caller invokes \<^verbatim>\<open>ensureGatewayRunning()\<close>\<close>
  | Resume  \<comment> \<open>the attempt goes on after \<^verbatim>\<open>await startGateway()\<close>\<close>
  | Ready bool  \<comment> \<open>\<^verbatim>\<open>waitForGatewayReady\<close> resolves\<close>
  | DoctorDone  \<comment> \<open>\<^verbatim>\<open>runDoctorBestEffort\<close> resolves\<close>
  | ProcExit  \<comment> \<open>the \<^verbatim>\<open>exit\<close> or \<^verbatim>\<open>error\<close> event of the gateway process\<close>

definition start_failure :: "string \<Rightarrow> string" where
  "start_failure e = ''[gateway] start failure: '' @ e"

definition sup_step :: "sup \<Rightarrow> sup_event \<Rightarrow> sup" where
  "sup_step s ev =
     (case ev of
        Call \<Rightarrow>
          (let (t, r) = ensureGatewayRunning s in t\<lparr>sup_callers := sup_callers t @ [r]\<rparr>)
      | ProcExit \<Rightarrow> s\<lparr>sup_gatewayProc := None\<rparr>
      | Resume \<Rightarrow>
          (case sup_gatewayStarting s of
             Some (k, AwaitingStart None) \<Rightarrow> s\<lparr>sup_gatewayStarting := Some (k, WaitingReady)\<rparr>
           | Some (k, AwaitingStart (Some e)) \<Rightarrow>
               s\<lparr>sup_lastGatewayError := Some (start_failure e),
                 sup_gatewayStarting := Some (k, Diagnosing e)\<rparr>
           | _ \<Rightarrow> s)
      | Ready ok \<Rightarrow>
          (case sup_gatewayStarting s of
             Some (k, WaitingReady) \<Rightarrow>
               (if ok then
                  s\<lparr>sup_gatewayStarting := None, sup_settled := sup_settled s @ [(k, Fulfilled)]\<rparr>
                else
                  s\<lparr>sup_lastGatewayError :=
                      Some (start_failure ''Error: Gateway did not become ready in time''),
                    sup_gatewayStarting :=
                      Some (k, Diagnosing ''Error: Gateway did not become ready in time'')\<rparr>)
           | _ \<Rightarrow> s)
      | DoctorDone \<Rightarrow>
          (case sup_gatewayStarting s of
             Some (k, Diagnosing e) \<Rightarrow>
               s\<lparr>sup_gatewayStarting := None,
                 sup_settled := sup_settled s @ [(k, RejectedWith e)]\<rparr>
           | _ \<Rightarrow> s))"

definition sup_run :: "sup \<Rightarrow> sup_event list \<Rightarrow> sup" where
  "sup_run s evs = foldl sup_step s evs"

definition observed :: "sup \<Rightarrow> ensure_outcome option list" where
  \<comment> \<open>What each caller has got from its \<^verbatim>\<open>await ensureGatewayRunning()\<close>: \<open>None\<close> while the
      attempt it waits for is pending.\<close>
  "observed s =
     map (\<lambda>r. case r of
                 Returned v \<Rightarrow> Some (Resolved v)
               | Awaits k \<Rightarrow>
                   (case map_of (sup_settled s) k of
                      None \<Rightarrow> None
                    | Some Fulfilled \<Rightarrow> Some (Resolved Ok)
                    | Some (RejectedWith e) \<Rightarrow> Some (Rejected e)))
       (sup_callers s)"

definition stopped :: sup where
  \<comment> \<open>The module's variables after load, with a configuration present.\<close>
  "stopped =
     \<lparr>sup_configured = True, sup_mkdir_error = None, sup_gatewayProc = None,
      sup_gatewayStarting = None, sup_lastGatewayError = None, sup_spawned = 0,
      sup_attempts = 0, sup_callers = [], sup_settled = []\<rparr>"

section \<open>runCmd (server.js 785-825)\<close>

text \<open>
  \<^verbatim>\<open>runCmd\<close> returns a promise and registers callbacks; what happens next is a sequence of
  events of the child process and of the two timers. A promise keeps the first value it is
  resolved with. A timer that was cleared, or that has fired, does not fire.
\<close>

datatype signal = SIGTERM | SIGKILL

datatype proc_event =
    Data string  \<comment> \<open>a chunk on stdout or stderr\<close>
  | TimerFired  \<comment> \<open>the timeout of \<open>timeoutMs\<close>\<close>
  | KillTimerFired  \<comment> \<open>the timeout of 2000 ms set when the first fired\<close>
  | ProcError string  \<comment> \<open>\<^verbatim>\<open>error\<close>, with \<^verbatim>\<open>String(err)\<close>\<close>
  | ProcClose "int option"  \<comment> \<open>\<^verbatim>\<open>close\<close>, with the exit code or \<^verbatim>\<open>null\<close>\<close>

record run_state =
  rs_out :: string
  rs_timer :: "nat option"  \<comment> \<open>the delay of \<^verbatim>\<open>timer\<close> while it is armed\<close>
  rs_killTimer :: "nat option"  \<comment> \<open>the delay of \<^verbatim>\<open>killTimer\<close> while it is armed\<close>
  rs_signals :: "signal list"  \<comment> \<open>the signals sent with \<^verbatim>\<open>proc.kill\<close>, in order\<close>
  rs_resolved :: "cmd_result option"  \<comment> \<open>the value of the promise, once resolved\<close>

definition resolve :: "cmd_result \<Rightarrow> run_state \<Rightarrow> run_state" where
  "resolve r s = (if rs_resolved s = None then s\<lparr>rs_resolved := Some r\<rparr> else s)"

definition timeout_marker :: "nat \<Rightarrow> string" where
  "timeout_marker ms =
     [CHR 0x0A] @ ''[timeout] Command exceeded '' @ show_nat ms @ ''ms and was terminated.''
       @ [CHR 0x0A]"

definition timeoutMs_of :: "nat option \<Rightarrow> nat" where
  \<comment> \<open>\<^verbatim>\<open>Number.isFinite(opts.timeoutMs) ? opts.timeoutMs : 120_000\<close>\<close>
  "timeoutMs_of t = (case t of Some ms \<Rightarrow> ms | None \<Rightarrow> 120000)"

definition runCmd :: "nat option \<Rightarrow> run_state" where
  \<comment> \<open>The state when \<^verbatim>\<open>runCmd\<close> returns; the argument is \<^verbatim>\<open>opts.timeoutMs\<close>, a finite number of
      milliseconds when given.\<close>
  "runCmd timeoutMs =
     \<lparr>rs_out = [], rs_timer = Some (timeoutMs_of timeoutMs),
      rs_killTimer = None, rs_signals = [], rs_resolved = None\<rparr>"

definition run_step :: "run_state \<Rightarrow> proc_event \<Rightarrow> run_state" where
  "run_step s ev =
     (case ev of
        Data d \<Rightarrow> s\<lparr>rs_out := rs_out s @ d\<rparr>
      | TimerFired \<Rightarrow>
          (case rs_timer s of
             None \<Rightarrow> s
           | Some ms \<Rightarrow>
               (let out = rs_out s @ timeout_marker ms
                in resolve \<lparr>code = 124, cmd_output = out\<rparr>
                     (s\<lparr>rs_timer := None, rs_signals := rs_signals s @ [SIGTERM],
                        rs_killTimer := Some 2000, rs_out := out\<rparr>)))
      | KillTimerFired \<Rightarrow>
          (case rs_killTimer s of
             None \<Rightarrow> s
           | Some ms \<Rightarrow> s\<lparr>rs_killTimer := None, rs_signals := rs_signals s @ [SIGKILL]\<rparr>)
      | ProcError err \<Rightarrow>
          (let out = rs_out s @ [CHR 0x0A] @ ''[spawn error] '' @ err @ [CHR 0x0A]
           in resolve \<lparr>code = 127, cmd_output = out\<rparr>
                (s\<lparr>rs_timer := None, rs_killTimer := None, rs_out := out\<rparr>))
      | ProcClose c \<Rightarrow>
          resolve \<lparr>code = (case c of Some n \<Rightarrow> n | None \<Rightarrow> 0), cmd_output = rs_out s\<rparr>
            (s\<lparr>rs_timer := None, rs_killTimer := None\<rparr>))"

definition run_events :: "run_state \<Rightarrow> proc_event list \<Rightarrow> run_state" where
  "run_events s evs = foldl run_step s evs"

definition is_data :: "proc_event \<Rightarrow> bool" where
  "is_data ev = (case ev of Data d \<Rightarrow> True | _ \<Rightarrow> False)"

definition data_of :: "proc_event \<Rightarrow> string" where
  "data_of ev = (case ev of Data d \<Rightarrow> d | _ \<Rightarrow> [])"

section \<open>A concrete deployment\<close>

definition quiet_world :: world where
  \<comment> \<open>The defaults of server.js (lines 74-80) on a fresh volume under \<^verbatim>\<open>/data\<close>: nothing
      configured, no gateway process, every command succeeding with no output.\<close>
  "quiet_world =
     \<lparr>OPENCLAW_NODE = ''node'', OPENCLAW_ENTRY = ''/openclaw/dist/entry.js'',
      OPENCLAW_GATEWAY_TOKEN = ''tok'', GATEWAY_TARGET = ''http://127.0.0.1:18789'',
      STATE_DIR = ''/data/.openclaw'', WORKSPACE_DIR = ''/data/workspace'',
      process_cwd = ''/app'', isConfigured = False, gatewayProc = False,
      lastGatewayError = None,
      runCmd_result = (\<lambda>c args. \<lparr>code = 0, cmd_output = []\<rparr>),
      ensure_result = Resolved Ok, restart_result = Resolved Ok\<rparr>"

definition chatty_world :: world where
  \<comment> \<open>as \<open>quiet_world\<close>, but every command prints 50001 characters\<close>
  "chatty_world =
     quiet_world\<lparr>runCmd_result := (\<lambda>c args. \<lparr>code = 0, cmd_output = replicate 50001 CHR ''a''\<rparr>)\<rparr>"

definition leaky_world :: world where
  \<comment> \<open>as \<open>quiet_world\<close>, but every command prints an API key\<close>
  "leaky_world =
     quiet_world\<lparr>runCmd_result := (\<lambda>c args. \<lparr>code = 0, cmd_output = ''key sk-ABCDEFGHIJ0123 ok''\<rparr>)\<rparr>"

section \<open>The setup password\<close>

text \<open>
  Claim C10. When the environment variable \<^verbatim>\<open>SETUP_PASSWORD\<close> is unset, the middleware
  answers every request with status 500 and the fixed message, whatever the request's
  credentials, and a route guarded by it does not run its handler.
\<close>
theorem requireSetupAuth_fails_closed:
  "requireSetupAuth (SETUP_PASSWORD None) b64 authorization =
     Respond \<lparr>status = 500, content_type = Some ''text/plain'', www_authenticate = None,
       body = ''SETUP_PASSWORD is not set. Set it in Railway Variables before using /setup.''\<rparr>
   \<and> setup_route None b64 authorization handler =
     Inl \<lparr>status = 500, content_type = Some ''text/plain'', www_authenticate = None,
       body = ''SETUP_PASSWORD is not set. Set it in Railway Variables before using /setup.''\<rparr>"
  by (simp add: setup_route_def requireSetupAuth_def SETUP_PASSWORD_def truthy_def)

theorem requireSetupAuth_fails_closed_witness:
  "setup_route None (\<lambda>s. s) (Some ''Basic eDp5'') [RunCmd ''node'' [''doctor'']] =
     Inl \<lparr>status = 500, content_type = Some ''text/plain'', www_authenticate = None,
       body = ''SETUP_PASSWORD is not set. Set it in Railway Variables before using /setup.''\<rparr>"
  using requireSetupAuth_fails_closed [of "\<lambda>s. s" "Some ''Basic eDp5''" "[RunCmd ''node'' [''doctor'']]"]
  by simp

section \<open>The bearer token of forwarded requests\<close>

text \<open>
  Claim C7 as stated says that a request which already carries an authorization header
  keeps it. A request whose authorization header is the empty string carries one, and the
  bearer token replaces it.
\<close>
theorem attach_empty_header_counterexample:
  "(Map.empty(''authorization'' \<mapsto> [])) ''authorization'' = Some []
   \<and> attachGatewayAuthHeader ''tok'' (Map.empty(''authorization'' \<mapsto> [])) ''authorization''
       = Some ''Bearer tok''"
  by (simp add: attachGatewayAuthHeader_def truthy_def)

text \<open>
  Claim C7, amended. The bearer token is written into the forwarded request exactly when a
  gateway token exists and the inbound request has no authorization header or an empty one;
  a non-empty authorization header is left as it is, and so is every request when there is
  no token. The test in the code is JavaScript truthiness, so a header that is present with
  the empty string as its value is overwritten: the counterexample above.
\<close>
theorem attachGatewayAuthHeader_spec:
  "((hs ''authorization'' = None \<or> hs ''authorization'' = Some []) \<and> token \<noteq> []
      \<longrightarrow> attachGatewayAuthHeader token hs = hs(''authorization'' \<mapsto> ''Bearer '' @ token))
   \<and> ((\<exists>v. hs ''authorization'' = Some v \<and> v \<noteq> []) \<longrightarrow> attachGatewayAuthHeader token hs = hs)
   \<and> (token = [] \<longrightarrow> attachGatewayAuthHeader token hs = hs)"
  by (auto simp: attachGatewayAuthHeader_def truthy_def)

theorem attachGatewayAuthHeader_spec_witness:
  "attachGatewayAuthHeader ''tok'' Map.empty = Map.empty(''authorization'' \<mapsto> ''Bearer tok'')
   \<and> attachGatewayAuthHeader ''tok'' (Map.empty(''authorization'' \<mapsto> ''Basic eDp5''))
       = Map.empty(''authorization'' \<mapsto> ''Basic eDp5'')
   \<and> attachGatewayAuthHeader [] Map.empty = Map.empty"
  using attachGatewayAuthHeader_spec [of Map.empty "''tok''"]
    attachGatewayAuthHeader_spec [of "Map.empty(''authorization'' \<mapsto> ''Basic eDp5'')" "''tok''"]
    attachGatewayAuthHeader_spec [of Map.empty "[]"]
  by simp

section \<open>Routing of unconfigured and configured systems\<close>

text \<open>
  Claim C6 as stated says that a WebSocket upgrade on an unconfigured system follows the rule
  of HTTP requests, a redirect to the setup surface. The upgrade handler answers with no
  redirect; it destroys the socket.
\<close>
theorem upgrade_unconfigured_counterexample:
  "\<not> isConfigured quiet_world
   \<and> \<not> starts_with ''/chat'' ''/setup''
   \<and> upgrade_handler quiet_world \<lparr>req_path = ''/chat'', req_headers = Map.empty\<rparr>
       = ([], SocketDestroy)
   \<and> SocketDestroy \<noteq> Redirect ''/setup''"
  by (simp add: upgrade_handler_def quiet_world_def starts_with_def)

text \<open>
  Claim C6, amended. On an unconfigured system an HTTP request whose path does not start
  with \<^verbatim>\<open>/setup\<close> is redirected to \<^verbatim>\<open>/setup\<close>. A WebSocket upgrade on an unconfigured
  system is not redirected: its socket is destroyed, whatever its path, and nothing is
  forwarded. On a configured system both first call \<^verbatim>\<open>ensureGatewayRunning\<close>; the request is
  forwarded only when that call resolves, and otherwise answered with 503 and a hint (HTTP)
  or its socket destroyed (upgrade).
\<close>
theorem proxy_routing:
  "(\<not> isConfigured w \<and> \<not> starts_with (req_path req) ''/setup''
      \<longrightarrow> proxy_middleware w req = ([], Redirect ''/setup''))
   \<and> (\<not> isConfigured w \<longrightarrow> upgrade_handler w req = ([], SocketDestroy))
   \<and> (isConfigured w \<longrightarrow>
        proxy_middleware w req =
          ([CallEnsureGatewayRunning],
           case ensure_result w of
             Rejected err \<Rightarrow> SendText 503 (not_ready_hint w err)
           | Resolved r \<Rightarrow>
               ProxyWeb (attachGatewayAuthHeader (OPENCLAW_GATEWAY_TOKEN w) (req_headers req))
                 (GATEWAY_TARGET w))
        \<and> upgrade_handler w req =
          ([CallEnsureGatewayRunning],
           case ensure_result w of
             Rejected err \<Rightarrow> SocketDestroy
           | Resolved r \<Rightarrow>
               ProxyWs (attachGatewayAuthHeader (OPENCLAW_GATEWAY_TOKEN w) (req_headers req))
                 (GATEWAY_TARGET w)))"
  by (auto simp: proxy_middleware_def upgrade_handler_def split: ensure_outcome.splits)

theorem proxy_routing_witness:
  "proxy_middleware quiet_world \<lparr>req_path = ''/chat'', req_headers = Map.empty\<rparr>
     = ([], Redirect ''/setup'')
   \<and> upgrade_handler quiet_world \<lparr>req_path = ''/chat'', req_headers = Map.empty\<rparr>
     = ([], SocketDestroy)
   \<and> proxy_middleware (quiet_world\<lparr>isConfigured := True\<rparr>)
        \<lparr>req_path = ''/chat'', req_headers = Map.empty\<rparr>
     = ([CallEnsureGatewayRunning],
        ProxyWeb (Map.empty(''authorization'' \<mapsto> ''Bearer tok'')) ''http://127.0.0.1:18789'')
   \<and> upgrade_handler (quiet_world\<lparr>isConfigured := True\<rparr>)
        \<lparr>req_path = ''/chat'', req_headers = Map.empty\<rparr>
     = ([CallEnsureGatewayRunning],
        ProxyWs (Map.empty(''authorization'' \<mapsto> ''Bearer tok'')) ''http://127.0.0.1:18789'')"
  using proxy_routing [of quiet_world "\<lparr>req_path = ''/chat'', req_headers = Map.empty\<rparr>"]
    proxy_routing [of "quiet_world\<lparr>isConfigured := True\<rparr>"
      "\<lparr>req_path = ''/chat'', req_headers = Map.empty\<rparr>"]
  by (simp add: quiet_world_def starts_with_def attachGatewayAuthHeader_def truthy_def)

section \<open>Archive entries\<close>


















section \<open>Commands that exceed their timeout\<close>

lemma data_of_Data: "data_of (Data d) = d"
  by (simp add: data_of_def)

lemma run_events_single: "run_events s [e] = run_step s e"
  by (simp add: run_events_def)

lemma run_events_append: "run_events s (xs @ ys) = run_events (run_events s xs) ys"
  by (simp add: run_events_def)

lemma run_events_data:
  "\<forall>e \<in> set evs. is_data e \<Longrightarrow>
     run_events s evs = s\<lparr>rs_out := rs_out s @ concat (map data_of evs)\<rparr>"
proof (induction evs arbitrary: s)
  case Nil
  then show ?case by (simp add: run_events_def)
next
  case (Cons e evs)
  then obtain d where e: "e = Data d" by (cases e) (auto simp: is_data_def)
  have "run_events s (e # evs) = run_events (run_step s e) evs"
    by (simp add: run_events_def)
  also have "\<dots> = (run_step s e)\<lparr>rs_out := rs_out (run_step s e) @ concat (map data_of evs)\<rparr>"
    using Cons by simp
  finally show ?case by (simp add: e run_step_def data_of_Data)
qed

lemma resolved_step: "rs_resolved s = Some r \<Longrightarrow> rs_resolved (run_step s e) = Some r"
  by (cases e) (auto simp: run_step_def resolve_def Let_def split: option.splits)

lemma resolved_sticky: "rs_resolved s = Some r \<Longrightarrow> rs_resolved (run_events s evs) = Some r"
proof (induction evs arbitrary: s)
  case Nil
  then show ?case by (simp add: run_events_def)
next
  case (Cons e evs)
  have "run_events s (e # evs) = run_events (run_step s e) evs" by (simp add: run_events_def)
  then show ?case using Cons resolved_step by simp
qed

lemma timers_cleared_step:
  "rs_timer s = None \<Longrightarrow> rs_killTimer s = None \<Longrightarrow>
     rs_timer (run_step s e) = None \<and> rs_killTimer (run_step s e) = None
     \<and> rs_signals (run_step s e) = rs_signals s"
  by (cases e) (auto simp: run_step_def resolve_def Let_def)

lemma timers_cleared:
  "rs_timer s = None \<Longrightarrow> rs_killTimer s = None \<Longrightarrow>
     rs_signals (run_events s evs) = rs_signals s"
proof (induction evs arbitrary: s)
  case Nil
  then show ?case by (simp add: run_events_def)
next
  case (Cons e evs)
  have "run_events s (e # evs) = run_events (run_step s e) evs" by (simp add: run_events_def)
  then show ?case using Cons timers_cleared_step [of s e] by simp
qed

lemma timer_fires:
  assumes "\<forall>e \<in> set pre. is_data e"
  shows "run_events (runCmd t) (pre @ [TimerFired]) =
           \<lparr>rs_out = concat (map data_of pre) @ timeout_marker (timeoutMs_of t),
            rs_timer = None, rs_killTimer = Some 2000, rs_signals = [SIGTERM],
            rs_resolved = Some \<lparr>code = 124,
              cmd_output = concat (map data_of pre) @ timeout_marker (timeoutMs_of t)\<rparr>\<rparr>"
  unfolding run_events_append run_events_data [OF assms] run_events_single
  by (simp add: run_step_def runCmd_def resolve_def Let_def)

text \<open>
  Claim C8. Let a command still run when its timeout fires: until then only output has
  arrived. Then SIGTERM is sent and the second timer is set to 2000 ms; the promise is
  resolved with code 124 and the output so far followed by the timeout marker, and keeps
  that value whatever happens later, so the caller does not hang. If the process is still
  alive when the second timer fires (only output arrived in between), SIGKILL is sent. If
  it closes before, the second timer is cleared and no SIGKILL is ever sent.
\<close>
theorem runCmd_timeout:
  assumes "\<forall>e \<in> set pre. is_data e" and "\<forall>e \<in> set grace. is_data e"
  shows "rs_signals (run_events (runCmd t) (pre @ [TimerFired])) = [SIGTERM]
   \<and> rs_killTimer (run_events (runCmd t) (pre @ [TimerFired])) = Some 2000
   \<and> rs_resolved (run_events (runCmd t) (pre @ [TimerFired] @ rest)) =
        Some \<lparr>code = 124,
          cmd_output = concat (map data_of pre) @ timeout_marker (timeoutMs_of t)\<rparr>
   \<and> rs_signals (run_events (runCmd t) (pre @ [TimerFired] @ grace @ [KillTimerFired]))
        = [SIGTERM, SIGKILL]
   \<and> rs_signals (run_events (runCmd t) (pre @ [TimerFired] @ grace @ [ProcClose c] @ rest))
        = [SIGTERM]"
proof (intro conjI)
  let ?s = "run_events (runCmd t) (pre @ [TimerFired])"
  note s = timer_fires [OF assms(1), of t]
  show "rs_signals ?s = [SIGTERM]" by (simp add: s)
  show "rs_killTimer ?s = Some 2000" by (simp add: s)
  have "rs_resolved (run_events ?s rest) =
          Some \<lparr>code = 124, cmd_output = concat (map data_of pre) @ timeout_marker (timeoutMs_of t)\<rparr>"
    by (rule resolved_sticky) (simp add: s)
  then show "rs_resolved (run_events (runCmd t) (pre @ [TimerFired] @ rest)) =
        Some \<lparr>code = 124, cmd_output = concat (map data_of pre) @ timeout_marker (timeoutMs_of t)\<rparr>"
    by (simp add: run_events_append [symmetric])
  have g: "run_events ?s grace = ?s\<lparr>rs_out := rs_out ?s @ concat (map data_of grace)\<rparr>"
    by (rule run_events_data [OF assms(2)])
  have "rs_signals (run_events (run_events ?s grace) [KillTimerFired]) = [SIGTERM, SIGKILL]"
    unfolding g run_events_single by (simp add: s run_step_def)
  then show "rs_signals (run_events (runCmd t) (pre @ [TimerFired] @ grace @ [KillTimerFired]))
        = [SIGTERM, SIGKILL]"
    by (simp add: run_events_append [symmetric])
  let ?c = "run_events (run_events ?s grace) [ProcClose c]"
  have c: "rs_timer ?c = None \<and> rs_killTimer ?c = None \<and> rs_signals ?c = [SIGTERM]"
    unfolding g run_events_single by (simp add: s run_step_def resolve_def)
  have "rs_signals (run_events ?c rest) = rs_signals ?c"
    using c by (intro timers_cleared) simp_all
  then show "rs_signals (run_events (runCmd t) (pre @ [TimerFired] @ grace @ [ProcClose c] @ rest))
        = [SIGTERM]"
    using c by (simp add: run_events_append [symmetric])
qed

theorem runCmd_timeout_witness:
  "rs_resolved (run_events (runCmd (Some 5000))
       ([Data ''partial''] @ [TimerFired] @ [ProcClose None]))
     = Some \<lparr>code = 124,
         cmd_output = ''partial'' @ [CHR 0x0A] @ ''[timeout] Command exceeded 5000ms and was terminated.'' @ [CHR 0x0A]\<rparr>
   \<and> rs_signals (run_events (runCmd (Some 5000))
       ([Data ''partial''] @ [TimerFired] @ [Data ''more''] @ [KillTimerFired]))
     = [SIGTERM, SIGKILL]"
  using runCmd_timeout [of "[Data ''partial'']" "[Data ''more'']" "Some 5000" "[ProcClose None]" None]
  by (simp add: is_data_def data_of_def timeout_marker_def timeoutMs_of_def digit_char_def show_nat.simps)

section \<open>The console\<close>

text \<open>
  Claim C3. A console request whose command, after trimming, is not one of the thirteen
  entries of \<^verbatim>\<open>ALLOWED_CONSOLE_COMMANDS\<close> is answered with status 400 and
  \<^verbatim>\<open>{ ok: false, error: "Command not allowed" }\<close>, with no effect at all: no process is
  spawned and the supervisor is not called.
\<close>
theorem console_rejects_unlisted:
  "trim (or_empty payload_cmd) \<notin> set ALLOWED_CONSOLE_COMMANDS \<Longrightarrow>
     console_run w payload_cmd payload_arg = ([], 400, Error ''Command not allowed'')"
  by (simp add: console_run_def Let_def)

theorem console_rejects_unlisted_witness:
  "trim (or_empty (Some ''rm -rf /'')) \<notin> set ALLOWED_CONSOLE_COMMANDS
   \<and> console_run quiet_world (Some ''rm -rf /'') None = ([], 400, Error ''Command not allowed'')"
proof -
  have h: "trim (or_empty (Some ''rm -rf /'')) \<notin> set ALLOWED_CONSOLE_COMMANDS"
    by (simp add: trim_def or_empty_def is_js_space_def ALLOWED_CONSOLE_COMMANDS_def)
  show ?thesis using h console_rejects_unlisted [OF h, of quiet_world None] by simp
qed

lemma dropWhile_same: "xs = [] \<or> \<not> P (hd xs) \<Longrightarrow> dropWhile P xs = xs"
  by (cases xs) auto

lemma trim_idem: "trim (trim s) = trim s"
proof -
  define a where "a = dropWhile is_js_space s"
  define b where "b = dropWhile is_js_space (rev a)"
  have t: "trim s = rev b" by (simp add: trim_def a_def b_def)
  have hb: "b = [] \<or> \<not> is_js_space (hd b)"
    unfolding b_def using hd_dropWhile [of is_js_space "rev a"] by blast
  have ha: "a = [] \<or> \<not> is_js_space (hd a)"
    unfolding a_def using hd_dropWhile [of is_js_space s] by blast
  have split: "rev a = takeWhile is_js_space (rev a) @ b" by (simp add: b_def)
  have lb: "b = [] \<or> \<not> is_js_space (last b)"
  proof (cases "b = []")
    case True
    then show ?thesis by simp
  next
    case False
    then have "last (rev a) = last b" using split by (metis last_appendR)
    moreover have "a \<noteq> []" using False split by auto
    ultimately show ?thesis using ha by (simp add: last_rev)
  qed
  have "rev b = [] \<or> \<not> is_js_space (hd (rev b))"
    using lb by (cases "b = []") (simp_all add: hd_rev)
  then have 1: "dropWhile is_js_space (rev b) = rev b" by (rule dropWhile_same)
  have 2: "dropWhile is_js_space b = b" using hb by (rule dropWhile_same)
  show ?thesis unfolding t by (simp add: trim_def 1 2)
qed

lemma tail_lines_range: "50 \<le> tail_lines arg \<and> tail_lines arg \<le> 1000"
  by (simp add: tail_lines_def Let_def)

lemma console_logs_tail:
  "trim (or_empty pc) = ''openclaw.logs.tail'' \<Longrightarrow>
     console_run w pc pa =
       claw_reply w [''logs'', ''--tail'', String_of_int (tail_lines (trim (or_empty pa)))]"
  by (simp add: console_run_def Let_def ALLOWED_CONSOLE_COMMANDS_def)

lemma console_config_get:
  "trim (or_empty pc) = ''openclaw.config.get'' \<Longrightarrow>
     console_run w pc pa =
       (if trim (or_empty pa) = [] then ([], 400, Error ''Missing config path'')
        else claw_reply w [''config'', ''get'', trim (or_empty pa)])"
  by (simp add: console_run_def Let_def ALLOWED_CONSOLE_COMMANDS_def)

lemma console_devices_approve:
  "trim (or_empty pc) = ''openclaw.devices.approve'' \<Longrightarrow>
     console_run w pc pa =
       (if trim (or_empty pa) = [] then ([], 400, Error ''Missing device request ID'')
        else if \<not> safe_ident (trim (or_empty pa)) then ([], 400, Error ''Invalid device request ID'')
        else claw_reply w [''devices'', ''approve'', trim (or_empty pa)])"
  by (simp add: console_run_def Let_def ALLOWED_CONSOLE_COMMANDS_def trim_idem)

lemma console_plugins_enable:
  "trim (or_empty pc) = ''openclaw.plugins.enable'' \<Longrightarrow>
     console_run w pc pa =
       (if trim (or_empty pa) = [] then ([], 400, Error ''Missing plugin name'')
        else if \<not> safe_ident (trim (or_empty pa)) then ([], 400, Error ''Invalid plugin name'')
        else claw_reply w [''plugins'', ''enable'', trim (or_empty pa)])"
  by (simp add: console_run_def Let_def ALLOWED_CONSOLE_COMMANDS_def trim_idem)

lemma digit_char_is_digit: "d < 10 \<Longrightarrow> is_digit (digit_char d)"
proof -
  assume "d < 10"
  then have "d \<in> {0, 1, 2, 3, 4, 5, 6, 7, 8, 9}" by auto
  then show ?thesis by (auto simp: digit_char_def is_digit_def)
qed

lemma show_nat_digits: "list_all is_digit (show_nat n)"
proof (induction n rule: show_nat.induct)
  case (1 n)
  show ?case
  proof (cases "n < 10")
    case True
    then show ?thesis by (simp add: show_nat.simps [of n] digit_char_is_digit)
  next
    case False
    then show ?thesis using 1 by (simp add: show_nat.simps [of n] digit_char_is_digit)
  qed
qed

lemma digit_val_digit_char: "d < 10 \<Longrightarrow> digit_val (digit_char d) = int d"
proof -
  assume "d < 10"
  then have "d \<in> {0, 1, 2, 3, 4, 5, 6, 7, 8, 9}" by auto
  then show ?thesis by (auto simp: digit_char_def digit_val_def)
qed

lemma digits_value_show_nat:
  "foldl (\<lambda>a c. 10 * a + digit_val c) 0 (show_nat k) = int k"
proof (induction k rule: show_nat.induct)
  case (1 n)
  show ?case
  proof (cases "n < 10")
    case True
    then show ?thesis by (simp add: show_nat.simps [of n] digit_val_digit_char)
  next
    case False
    then have "foldl (\<lambda>a c. 10 * a + digit_val c) 0 (show_nat n)
        = 10 * int (n div 10) + int (n mod 10)"
      using 1 by (simp add: show_nat.simps [of n] digit_val_digit_char)
    then show ?thesis by (simp add: zdiv_int zmod_int)
  qed
qed

lemma show_nat_nonempty: "show_nat k \<noteq> []"
  by (simp add: show_nat.simps [of k])

lemma digit_plain: "is_digit c \<Longrightarrow> \<not> is_js_space c \<and> c \<noteq> CHR ''-'' \<and> c \<noteq> CHR ''+''"
  by (auto simp: is_digit_def is_js_space_def)

lemma takeWhile_digits:
  "list_all is_digit ds \<Longrightarrow> rest = [] \<or> \<not> is_digit (hd rest) \<Longrightarrow>
     takeWhile is_digit (ds @ rest) = ds"
proof (induction ds)
  case Nil
  then show ?case by (cases rest) auto
next
  case (Cons d ds)
  then show ?case by simp
qed

lemma parseInt10_decimal:
  assumes "rest = [] \<or> \<not> is_digit (hd rest)"
  shows "parseInt10 (show_nat k @ rest) = Some (int k)"
proof -
  obtain c cs where ds: "show_nat k = c # cs"
    using show_nat_nonempty [of k] by (cases "show_nat k") auto
  have all: "list_all is_digit (c # cs)" using show_nat_digits [of k] ds by simp
  then have c: "\<not> is_js_space c" "c \<noteq> CHR ''-''" "c \<noteq> CHR ''+''"
    using digit_plain [of c] by simp_all
  have tw: "takeWhile is_digit ((c # cs) @ rest) = c # cs"
    using all assms by (rule takeWhile_digits)
  have v: "foldl (\<lambda>a c. 10 * a + digit_val c) 0 (c # cs) = int k"
    using digits_value_show_nat [of k] ds by simp
  have "parseInt10 ((c # cs) @ rest) = Some (int k)"
    unfolding parseInt10_def Let_def using c tw v by simp
  then show ?thesis by (simp add: ds)
qed

lemma parseInt10_negative:
  assumes "rest = [] \<or> \<not> is_digit (hd rest)"
  shows "parseInt10 (CHR ''-'' # show_nat k @ rest) = Some (- int k)"
proof -
  obtain c cs where ds: "show_nat k = c # cs"
    using show_nat_nonempty [of k] by (cases "show_nat k") auto
  have all: "list_all is_digit (c # cs)" using show_nat_digits [of k] ds by simp
  have tw: "takeWhile is_digit ((c # cs) @ rest) = c # cs"
    using all assms by (rule takeWhile_digits)
  have v: "foldl (\<lambda>a c. 10 * a + digit_val c) 0 (c # cs) = int k"
    using digits_value_show_nat [of k] ds by simp
  have "parseInt10 (CHR ''-'' # (c # cs) @ rest) = Some (- int k)"
    unfolding parseInt10_def Let_def using tw v by (simp add: is_js_space_def)
  then show ?thesis by (simp add: ds)
qed

lemma tail_lines_decimal:
  assumes "rest = [] \<or> \<not> is_digit (hd rest)"
  shows "tail_lines (show_nat k @ rest) = (if k = 0 then 200 else max 50 (min 1000 (int k)))"
  using parseInt10_decimal [OF assms, of k] show_nat_nonempty [of k]
  by (simp add: tail_lines_def Let_def)

lemma tail_lines_negative:
  assumes "rest = [] \<or> \<not> is_digit (hd rest)"
  shows "tail_lines (CHR ''-'' # show_nat k @ rest) = (if k = 0 then 200 else 50)"
  using parseInt10_negative [OF assms, of k]
  by (simp add: tail_lines_def Let_def)

lemma tail_lines_not_a_number:
  assumes "arg = [] \<or> (\<not> is_js_space (hd arg) \<and> \<not> is_digit (hd arg) \<and> hd arg \<noteq> CHR ''-'' \<and> hd arg \<noteq> CHR ''+'')"
  shows "tail_lines arg = 200"
proof (cases arg)
  case Nil
  then show ?thesis
    by (simp add: tail_lines_def parseInt10_def Let_def is_js_space_def is_digit_def digit_val_def)
next
  case (Cons c cs)
  with assms have "\<not> is_js_space c" "\<not> is_digit c" "c \<noteq> CHR ''-''" "c \<noteq> CHR ''+''" by simp_all
  then show ?thesis using Cons by (simp add: tail_lines_def parseInt10_def Let_def)
qed

lemma claw_reply_effects: "fst (claw_reply w args) = [RunCmd (OPENCLAW_NODE w) (clawArgs w args)]"
  by (simp add: claw_reply_def Let_def)

text \<open>
  Claim C4, amended. \<^verbatim>\<open>openclaw.logs.tail\<close> passes the decimal digits of the line count
  that \<^verbatim>\<open>tail_lines\<close> computes from the trimmed argument, a number between 50 and 1000: an
  argument that starts with the decimal numeral of \<open>k\<close> gives \<open>k\<close> clamped to that range (200
  for zero), one that starts with a minus sign and a numeral gives 50 (200 for zero), and
  an empty one or one that starts with no digit, sign or white space gives 200.
  \<^verbatim>\<open>openclaw.devices.approve\<close> and \<^verbatim>\<open>openclaw.plugins.enable\<close> run a command only when
  the trimmed argument matches \<^verbatim>\<open>^[A-Za-z0-9_-]+$\<close>, and pass it unchanged.
  \<^verbatim>\<open>openclaw.config.get\<close> checks only that the trimmed argument is not empty and passes it
  unchanged, whatever characters it holds.
\<close>
theorem console_arguments_checked:
  "(trim (or_empty pc) = ''openclaw.logs.tail'' \<longrightarrow>
      fst (console_run w pc pa) =
        [RunCmd (OPENCLAW_NODE w)
           (clawArgs w [''logs'', ''--tail'', String_of_int (tail_lines (trim (or_empty pa)))])]
      \<and> 50 \<le> tail_lines (trim (or_empty pa)) \<and> tail_lines (trim (or_empty pa)) \<le> 1000
      \<and> list_all is_digit (String_of_int (tail_lines (trim (or_empty pa))))
      \<and> parseInt10 (String_of_int (tail_lines (trim (or_empty pa))))
          = Some (tail_lines (trim (or_empty pa))))
   \<and> (rest = [] \<or> \<not> is_digit (hd rest) \<longrightarrow>
        tail_lines (show_nat k @ rest) = (if k = 0 then 200 else max 50 (min 1000 (int k)))
        \<and> tail_lines (CHR ''-'' # show_nat k @ rest) = (if k = 0 then 200 else 50))
   \<and> (arg = [] \<or> (\<not> is_js_space (hd arg) \<and> \<not> is_digit (hd arg)
                    \<and> hd arg \<noteq> CHR ''-'' \<and> hd arg \<noteq> CHR ''+'')
        \<longrightarrow> tail_lines arg = 200)
   \<and> (trim (or_empty pc) = ''openclaw.devices.approve'' \<longrightarrow>
        fst (console_run w pc pa) =
          (if safe_ident (trim (or_empty pa))
           then [RunCmd (OPENCLAW_NODE w) (clawArgs w [''devices'', ''approve'', trim (or_empty pa)])]
           else []))
   \<and> (trim (or_empty pc) = ''openclaw.plugins.enable'' \<longrightarrow>
        fst (console_run w pc pa) =
          (if safe_ident (trim (or_empty pa))
           then [RunCmd (OPENCLAW_NODE w) (clawArgs w [''plugins'', ''enable'', trim (or_empty pa)])]
           else []))
   \<and> (trim (or_empty pc) = ''openclaw.config.get'' \<longrightarrow>
        fst (console_run w pc pa) =
          (if trim (or_empty pa) \<noteq> []
           then [RunCmd (OPENCLAW_NODE w) (clawArgs w [''config'', ''get'', trim (or_empty pa)])]
           else []))"
proof (intro conjI impI)
  assume c: "trim (or_empty pc) = ''openclaw.logs.tail''"
  let ?n = "tail_lines (trim (or_empty pa))"
  note range = tail_lines_range [of "trim (or_empty pa)"]
  have str: "String_of_int ?n = show_nat (nat ?n)"
    using range by (simp add: String_of_int_def)
  show "fst (console_run w pc pa) =
        [RunCmd (OPENCLAW_NODE w) (clawArgs w [''logs'', ''--tail'', String_of_int ?n])]"
    by (simp add: console_logs_tail [OF c] claw_reply_effects)
  show "50 \<le> ?n" "?n \<le> 1000" using range by simp_all
  show "list_all is_digit (String_of_int ?n)"
    by (simp add: str show_nat_digits)
  show "parseInt10 (String_of_int ?n) = Some ?n"
    using parseInt10_decimal [of "[]" "nat ?n"] range by (simp add: str)
next
  assume r: "rest = [] \<or> \<not> is_digit (hd rest)"
  show "tail_lines (show_nat k @ rest) = (if k = 0 then 200 else max 50 (min 1000 (int k)))"
    by (rule tail_lines_decimal [OF r])
  show "tail_lines (CHR ''-'' # show_nat k @ rest) = (if k = 0 then 200 else 50)"
    by (rule tail_lines_negative [OF r])
next
  assume "arg = [] \<or> (\<not> is_js_space (hd arg) \<and> \<not> is_digit (hd arg)
                    \<and> hd arg \<noteq> CHR ''-'' \<and> hd arg \<noteq> CHR ''+'')"
  then show "tail_lines arg = 200" by (rule tail_lines_not_a_number)
next
  assume c: "trim (or_empty pc) = ''openclaw.devices.approve''"
  show "fst (console_run w pc pa) =
          (if safe_ident (trim (or_empty pa))
           then [RunCmd (OPENCLAW_NODE w) (clawArgs w [''devices'', ''approve'', trim (or_empty pa)])]
           else [])"
    by (simp add: console_devices_approve [OF c] claw_reply_effects safe_ident_def)
next
  assume c: "trim (or_empty pc) = ''openclaw.plugins.enable''"
  show "fst (console_run w pc pa) =
          (if safe_ident (trim (or_empty pa))
           then [RunCmd (OPENCLAW_NODE w) (clawArgs w [''plugins'', ''enable'', trim (or_empty pa)])]
           else [])"
    by (simp add: console_plugins_enable [OF c] claw_reply_effects safe_ident_def)
next
  assume c: "trim (or_empty pc) = ''openclaw.config.get''"
  show "fst (console_run w pc pa) =
          (if trim (or_empty pa) \<noteq> []
           then [RunCmd (OPENCLAW_NODE w) (clawArgs w [''config'', ''get'', trim (or_empty pa)])]
           else [])"
    by (simp add: console_config_get [OF c] claw_reply_effects)
qed

lemma trim_plain: "s \<noteq> [] \<Longrightarrow> \<not> is_js_space (hd s) \<Longrightarrow> \<not> is_js_space (last s) \<Longrightarrow> trim s = s"
  by (simp add: trim_def dropWhile_same hd_rev)

text \<open>
  Claim C4 as stated counts the config path among the arguments that are checked against
  the pattern or clamped to a range. The console passes \<^verbatim>\<open>gateway.auth.token\<close> to the
  command as it is, though it neither matches the pattern nor is a number.
\<close>
theorem config_get_counterexample:
  "fst (console_run quiet_world (Some ''openclaw.config.get'') (Some ''gateway.auth.token''))
     = [RunCmd ''node'' [''/openclaw/dist/entry.js'', ''config'', ''get'', ''gateway.auth.token'']]
   \<and> \<not> safe_ident ''gateway.auth.token''
   \<and> \<not> list_all is_digit ''gateway.auth.token''"
proof -
  have c: "trim (or_empty (Some ''openclaw.config.get'')) = ''openclaw.config.get''"
    by (simp add: or_empty_def trim_plain is_js_space_def)
  have a: "trim (or_empty (Some ''gateway.auth.token'')) = ''gateway.auth.token''"
    by (simp add: or_empty_def trim_plain is_js_space_def)
  show ?thesis
    unfolding console_config_get [OF c] a
    by (simp add: claw_reply_def clawArgs_def quiet_world_def safe_ident_def cls_key_def
          is_alpha_def is_digit_def)
qed


theorem console_arguments_checked_witness:
  "fst (console_run quiet_world (Some ''openclaw.logs.tail'') (Some ''75''))
     = [RunCmd ''node'' [''/openclaw/dist/entry.js'', ''logs'', ''--tail'', ''75'']]
   \<and> fst (console_run quiet_world (Some ''openclaw.logs.tail'') (Some ''99999''))
     = [RunCmd ''node'' [''/openclaw/dist/entry.js'', ''logs'', ''--tail'', ''1000'']]
   \<and> fst (console_run quiet_world (Some ''openclaw.logs.tail'') (Some ''7''))
     = [RunCmd ''node'' [''/openclaw/dist/entry.js'', ''logs'', ''--tail'', ''50'']]
   \<and> fst (console_run quiet_world (Some ''openclaw.logs.tail'') None)
     = [RunCmd ''node'' [''/openclaw/dist/entry.js'', ''logs'', ''--tail'', ''200'']]
   \<and> tail_lines ''-5'' = 50 \<and> tail_lines ''75 --follow'' = 75 \<and> tail_lines ''all'' = 200
   \<and> fst (console_run quiet_world (Some ''openclaw.devices.approve'') (Some ''req_1-A''))
       = [RunCmd ''node'' [''/openclaw/dist/entry.js'', ''devices'', ''approve'', ''req_1-A'']]
   \<and> fst (console_run quiet_world (Some ''openclaw.plugins.enable'') (Some ''a;b'')) = []
   \<and> fst (console_run quiet_world (Some ''openclaw.config.get'') (Some ''gateway.port''))
       = [RunCmd ''node'' [''/openclaw/dist/entry.js'', ''config'', ''get'', ''gateway.port'']]"
proof -
  have t: "trim (or_empty (Some ''openclaw.logs.tail'')) = ''openclaw.logs.tail''"
    "trim (or_empty (Some ''openclaw.devices.approve'')) = ''openclaw.devices.approve''"
    "trim (or_empty (Some ''openclaw.plugins.enable'')) = ''openclaw.plugins.enable''"
    "trim (or_empty (Some ''openclaw.config.get'')) = ''openclaw.config.get''"
    "trim (or_empty (Some ''req_1-A'')) = ''req_1-A''"
    "trim (or_empty (Some ''a;b'')) = ''a;b''"
    "trim (or_empty (Some ''gateway.port'')) = ''gateway.port''"
    "trim (or_empty (Some ''75'')) = ''75''"
    "trim (or_empty (Some ''99999'')) = ''99999''"
    "trim (or_empty (Some ''7'')) = ''7''"
    by (simp_all add: or_empty_def trim_plain is_js_space_def)
  have e: "trim (or_empty None) = []" by (simp add: or_empty_def trim_def)
  have s: "safe_ident ''req_1-A''" "\<not> safe_ident ''a;b''"
    by (simp_all add: safe_ident_def cls_key_def is_alpha_def is_digit_def)
  have n: "show_nat 75 = ''75''" "show_nat 99999 = ''99999''" "show_nat 7 = ''7''"
    "show_nat 5 = ''5''"
    by (simp_all add: show_nat.simps digit_char_def)
  have d: "String_of_int 75 = ''75''" "String_of_int 1000 = ''1000''" "String_of_int 50 = ''50''"
    "String_of_int 200 = ''200''"
    by (simp_all add: String_of_int_def show_nat.simps digit_char_def)
  note a = console_arguments_checked [where w = quiet_world]
  have v75: "tail_lines ''75'' = 75" "tail_lines ''75 --follow'' = 75"
    using a [where rest = "[]" and k = 75, THEN conjunct2, THEN conjunct1]
      a [where rest = "'' --follow''" and k = 75, THEN conjunct2, THEN conjunct1]
    by (simp_all add: n is_digit_def)
  have vbig: "tail_lines ''99999'' = 1000" "tail_lines ''7'' = 50"
    using a [where rest = "[]" and k = 99999, THEN conjunct2, THEN conjunct1]
      a [where rest = "[]" and k = 7, THEN conjunct2, THEN conjunct1]
    by (simp_all add: n)
  have vneg: "tail_lines ''-5'' = 50"
    using a [where rest = "[]" and k = 5, THEN conjunct2, THEN conjunct1]
    by (simp add: n)
  have vnan: "tail_lines [] = 200" "tail_lines ''all'' = 200"
    using a [where arg = "[]", THEN conjunct2, THEN conjunct2, THEN conjunct1]
      a [where arg = "''all''", THEN conjunct2, THEN conjunct2, THEN conjunct1]
    by (simp_all add: is_js_space_def is_digit_def)
  have l75: "fst (console_run quiet_world (Some ''openclaw.logs.tail'') (Some ''75''))
     = [RunCmd ''node'' [''/openclaw/dist/entry.js'', ''logs'', ''--tail'', ''75'']]"
    using a [where pc = "Some ''openclaw.logs.tail''" and pa = "Some ''75''", THEN conjunct1]
    unfolding t by (simp add: v75 d clawArgs_def quiet_world_def)
  have lbig: "fst (console_run quiet_world (Some ''openclaw.logs.tail'') (Some ''99999''))
     = [RunCmd ''node'' [''/openclaw/dist/entry.js'', ''logs'', ''--tail'', ''1000'']]"
    using a [where pc = "Some ''openclaw.logs.tail''" and pa = "Some ''99999''", THEN conjunct1]
    unfolding t by (simp add: vbig d clawArgs_def quiet_world_def)
  have l7: "fst (console_run quiet_world (Some ''openclaw.logs.tail'') (Some ''7''))
     = [RunCmd ''node'' [''/openclaw/dist/entry.js'', ''logs'', ''--tail'', ''50'']]"
    using a [where pc = "Some ''openclaw.logs.tail''" and pa = "Some ''7''", THEN conjunct1]
    unfolding t by (simp add: vbig d clawArgs_def quiet_world_def)
  have lnone: "fst (console_run quiet_world (Some ''openclaw.logs.tail'') None)
     = [RunCmd ''node'' [''/openclaw/dist/entry.js'', ''logs'', ''--tail'', ''200'']]"
    using a [where pc = "Some ''openclaw.logs.tail''" and pa = None, THEN conjunct1]
    unfolding t e by (simp add: vnan d clawArgs_def quiet_world_def)
  have rest: "fst (console_run quiet_world (Some ''openclaw.devices.approve'') (Some ''req_1-A''))
       = [RunCmd ''node'' [''/openclaw/dist/entry.js'', ''devices'', ''approve'', ''req_1-A'']]
   \<and> fst (console_run quiet_world (Some ''openclaw.plugins.enable'') (Some ''a;b'')) = []
   \<and> fst (console_run quiet_world (Some ''openclaw.config.get'') (Some ''gateway.port''))
       = [RunCmd ''node'' [''/openclaw/dist/entry.js'', ''config'', ''get'', ''gateway.port'']]"
    using a [where pc = "Some ''openclaw.devices.approve''" and pa = "Some ''req_1-A''"]
      a [where pc = "Some ''openclaw.plugins.enable''" and pa = "Some ''a;b''"]
      a [where pc = "Some ''openclaw.config.get''" and pa = "Some ''gateway.port''"]
    unfolding t
    by (simp add: s clawArgs_def quiet_world_def)
  show ?thesis using l75 lbig l7 lnone v75 vneg vnan rest by blast
qed

lemma tail_lines_examples:
  "tail_lines ''99999'' = 1000" "tail_lines [] = 200" "tail_lines ''-5'' = 50"
  "tail_lines ''abc'' = 200" "tail_lines ''75 --follow'' = 75" "tail_lines ''0'' = 200"
  by (simp_all add: tail_lines_def parseInt10_def Let_def is_js_space_def is_digit_def digit_val_def)

lemma String_of_int_examples: "String_of_int 1000 = ''1000''" "String_of_int 50 = ''50''"
  by (simp_all add: String_of_int_def show_nat.simps digit_char_def)

section \<open>Size of the output\<close>

lemma replace_all_plain:
  "(\<And>xs. m (CHR ''a'' # xs) = None) \<Longrightarrow>
     replace_all m (replicate n CHR ''a'') = replicate n CHR ''a''"
  by (induction n) simp_all

lemma redactSecrets_plain: "redactSecrets (replicate n CHR ''a'') = replicate n CHR ''a''"
proof -
  have 1: "match_sk (CHR ''a'' # xs) = None" for xs
    by (simp add: match_sk_def starts_with_def)
  have 2: "match_gho (CHR ''a'' # xs) = None" for xs
    by (simp add: match_gho_def starts_with_def)
  have 3: "match_xox (CHR ''a'' # xs) = None" for xs
    by (simp add: match_xox_def starts_with_def)
  have 4: "match_telegram (CHR ''a'' # xs) = None" for xs
    by (simp add: match_telegram_def is_digit_def)
  have 5: "match_aa (CHR ''a'' # xs) = None" for xs
    by (simp add: match_aa_def starts_with_def)
  show ?thesis
    by (simp add: redactSecrets_def replace_all_plain 1 2 3 4 5)
qed

lemma console_doctor:
  "trim (or_empty pc) = ''openclaw.doctor'' \<Longrightarrow> console_run w pc pa = claw_reply w [''doctor'']"
  by (simp add: console_run_def Let_def ALLOWED_CONSOLE_COMMANDS_def)

text \<open>
  Claim C9 as stated says that output beyond the ceiling comes back truncated, with a
  marker. A console command whose process prints 50001 characters returns all of them and
  nothing else.
\<close>
theorem console_untruncated_counterexample:
  "cmd_output (runCmd_result chatty_world ''node'' [''/openclaw/dist/entry.js'', ''doctor''])
     = replicate 50001 CHR ''a''
   \<and> console_run chatty_world (Some ''openclaw.doctor'') None =
       ([RunCmd ''node'' [''/openclaw/dist/entry.js'', ''doctor'']], 200,
        Output True (replicate 50001 CHR ''a''))"
proof -
  have c: "trim (or_empty (Some ''openclaw.doctor'')) = ''openclaw.doctor''"
    by (simp add: or_empty_def trim_plain is_js_space_def)
  show ?thesis
    unfolding console_doctor [OF c]
    by (simp add: claw_reply_def clawArgs_def chatty_world_def quiet_world_def redactSecrets_plain)
qed

lemma console_simple:
  "trim (or_empty pc) = ''openclaw.version'' \<Longrightarrow> console_run w pc pa = claw_reply w [''--version'']"
  "trim (or_empty pc) = ''openclaw.status'' \<Longrightarrow> console_run w pc pa = claw_reply w [''status'']"
  "trim (or_empty pc) = ''openclaw.health'' \<Longrightarrow> console_run w pc pa = claw_reply w [''health'']"
  "trim (or_empty pc) = ''openclaw.devices.list'' \<Longrightarrow> console_run w pc pa = claw_reply w [''devices'', ''list'']"
  "trim (or_empty pc) = ''openclaw.plugins.list'' \<Longrightarrow> console_run w pc pa = claw_reply w [''plugins'', ''list'']"
  by (simp_all add: console_run_def Let_def ALLOWED_CONSOLE_COMMANDS_def)

lemma console_gateway:
  "trim (or_empty pc) = ''gateway.restart'' \<Longrightarrow> fst (console_run w pc pa) = [CallRestartGateway]"
  "trim (or_empty pc) = ''gateway.stop'' \<Longrightarrow> fst (console_run w pc pa) = stop_gateway w"
  "trim (or_empty pc) = ''gateway.start'' \<Longrightarrow> fst (console_run w pc pa) = [CallEnsureGatewayRunning]"
  by (simp_all add: console_run_def Let_def ALLOWED_CONSOLE_COMMANDS_def
        split: ensure_outcome.splits ensure_result.splits)

lemma claw_reply_whole:
  "RunCmd c args \<in> set (fst (claw_reply w as)) \<Longrightarrow>
     snd (snd (claw_reply w as)) =
       Output (code (runCmd_result w c args) = 0) (redactSecrets (cmd_output (runCmd_result w c args)))"
  by (simp add: claw_reply_def Let_def)

lemma console_output_whole:
  assumes "RunCmd c args \<in> set (fst (console_run w pc pa))"
  shows "snd (snd (console_run w pc pa)) =
       Output (code (runCmd_result w c args) = 0) (redactSecrets (cmd_output (runCmd_result w c args)))"
proof (cases "trim (or_empty pc) \<in> set ALLOWED_CONSOLE_COMMANDS")
  case False
  then have "fst (console_run w pc pa) = []" by (simp add: console_run_def Let_def)
  with assms show ?thesis by simp
next
  case True
  then consider
      "trim (or_empty pc) = ''gateway.restart''" | "trim (or_empty pc) = ''gateway.stop''"
    | "trim (or_empty pc) = ''gateway.start''" | "trim (or_empty pc) = ''openclaw.version''"
    | "trim (or_empty pc) = ''openclaw.status''" | "trim (or_empty pc) = ''openclaw.health''"
    | "trim (or_empty pc) = ''openclaw.doctor''" | "trim (or_empty pc) = ''openclaw.logs.tail''"
    | "trim (or_empty pc) = ''openclaw.config.get''" | "trim (or_empty pc) = ''openclaw.devices.list''"
    | "trim (or_empty pc) = ''openclaw.devices.approve''" | "trim (or_empty pc) = ''openclaw.plugins.list''"
    | "trim (or_empty pc) = ''openclaw.plugins.enable''"
    unfolding ALLOWED_CONSOLE_COMMANDS_def by fastforce
  then show ?thesis
  proof cases
    case 1
    then show ?thesis using assms by (simp add: console_gateway)
  next
    case 2
    then show ?thesis using assms by (simp add: console_gateway stop_gateway_def split: if_splits)
  next
    case 3
    then show ?thesis using assms by (simp add: console_gateway)
  next
    case 4
    then show ?thesis using assms claw_reply_whole by (simp add: console_simple)
  next
    case 5
    then show ?thesis using assms claw_reply_whole by (simp add: console_simple)
  next
    case 6
    then show ?thesis using assms claw_reply_whole by (simp add: console_simple)
  next
    case 7
    then show ?thesis using assms claw_reply_whole by (simp add: console_doctor)
  next
    case 8
    then show ?thesis using assms claw_reply_whole by (simp add: console_logs_tail)
  next
    case 9
    then show ?thesis using assms claw_reply_whole
      by (simp add: console_config_get split: if_splits)
  next
    case 10
    then show ?thesis using assms claw_reply_whole by (simp add: console_simple)
  next
    case 11
    then show ?thesis using assms claw_reply_whole
      by (simp add: console_devices_approve split: if_splits)
  next
    case 12
    then show ?thesis using assms claw_reply_whole by (simp add: console_simple)
  next
    case 13
    then show ?thesis using assms claw_reply_whole
      by (simp add: console_plugins_enable split: if_splits)
  qed
qed

lemma runCmd_close:
  assumes "\<forall>e \<in> set evs. is_data e"
  shows "rs_resolved (run_events (runCmd t) (evs @ [ProcClose c])) =
           Some \<lparr>code = (case c of Some n \<Rightarrow> n | None \<Rightarrow> 0),
                 cmd_output = concat (map data_of evs)\<rparr>"
  unfolding run_events_append run_events_data [OF assms] run_events_single
  by (simp add: run_step_def runCmd_def resolve_def)

text \<open>
  Claim C9, amended. \<^verbatim>\<open>runCmd\<close> captures the whole output of a command that closes,
  whatever its length, and a console command that runs a process returns the redacted
  output whole. The one ceiling is in \<^verbatim>\<open>runDoctorBestEffort\<close>: when it runs the doctor, the
  text it keeps is the redacted output if that has at most 50000 characters, and otherwise
  its first 50000 characters followed by the truncation marker.
\<close>
theorem output_ceiling:
  "((\<forall>e \<in> set evs. is_data e) \<longrightarrow>
      rs_resolved (run_events (runCmd t) (evs @ [ProcClose c])) =
        Some \<lparr>code = (case c of Some n \<Rightarrow> n | None \<Rightarrow> 0),
              cmd_output = concat (map data_of evs)\<rparr>)
   \<and> (RunCmd cmd args \<in> set (fst (console_run w pc pa)) \<longrightarrow>
        snd (snd (console_run w pc pa)) =
          Output (code (runCmd_result w cmd args) = 0)
            (redactSecrets (cmd_output (runCmd_result w cmd args))))
   \<and> (lastDoctorAt d = None \<or> lastDoctorAt d = Some 0
        \<or> (\<exists>t. lastDoctorAt d = Some t \<and> 5 * 60 * 1000 \<le> now - t) \<longrightarrow>
        (let out = redactSecrets
                     (cmd_output (runCmd_result w (OPENCLAW_NODE w) (clawArgs w [''doctor''])));
             kept = lastDoctorOutput (snd (runDoctorBestEffort w now d))
         in (length out \<le> 50000 \<longrightarrow> kept = Some out)
            \<and> (50000 < length out \<longrightarrow> kept = Some (take 50000 out @ truncated_marker))))"
proof (intro conjI impI)
  assume "\<forall>e \<in> set evs. is_data e"
  then show "rs_resolved (run_events (runCmd t) (evs @ [ProcClose c])) =
        Some \<lparr>code = (case c of Some n \<Rightarrow> n | None \<Rightarrow> 0), cmd_output = concat (map data_of evs)\<rparr>"
    by (rule runCmd_close)
next
  assume "RunCmd cmd args \<in> set (fst (console_run w pc pa))"
  then show "snd (snd (console_run w pc pa)) =
          Output (code (runCmd_result w cmd args) = 0)
            (redactSecrets (cmd_output (runCmd_result w cmd args)))"
    by (rule console_output_whole)
next
  assume "lastDoctorAt d = None \<or> lastDoctorAt d = Some 0
        \<or> (\<exists>t. lastDoctorAt d = Some t \<and> 5 * 60 * 1000 \<le> now - t)"
  then show "let out = redactSecrets
                     (cmd_output (runCmd_result w (OPENCLAW_NODE w) (clawArgs w [''doctor''])));
             kept = lastDoctorOutput (snd (runDoctorBestEffort w now d))
         in (length out \<le> 50000 \<longrightarrow> kept = Some out)
            \<and> (50000 < length out \<longrightarrow> kept = Some (take 50000 out @ truncated_marker))"
    by (auto simp: runDoctorBestEffort_def Let_def)
qed

theorem output_ceiling_witness:
  "rs_resolved (run_events (runCmd None) ([Data ''one '', Data ''two''] @ [ProcClose (Some 3)])) =
     Some \<lparr>code = 3, cmd_output = ''one two''\<rparr>
   \<and> snd (snd (console_run chatty_world (Some ''openclaw.doctor'') None))
       = Output True (replicate 50001 CHR ''a'')
   \<and> lastDoctorOutput (snd (runDoctorBestEffort chatty_world 1700000000000
        \<lparr>lastDoctorAt = None, lastDoctorOutput = None\<rparr>))
       = Some (replicate 50000 CHR ''a'' @ truncated_marker)
   \<and> lastDoctorOutput (snd (runDoctorBestEffort quiet_world 1700000000000
        \<lparr>lastDoctorAt = None, lastDoctorOutput = None\<rparr>)) = Some []"
proof -
  have c: "trim (or_empty (Some ''openclaw.doctor'')) = ''openclaw.doctor''"
    by (simp add: or_empty_def trim_plain is_js_space_def)
  have e: "fst (console_run chatty_world (Some ''openclaw.doctor'') None)
             = [RunCmd ''node'' [''/openclaw/dist/entry.js'', ''doctor'']]"
    unfolding console_doctor [OF c]
    by (simp add: claw_reply_def clawArgs_def chatty_world_def quiet_world_def)
  have r: "runCmd_result chatty_world = (\<lambda>c args. \<lparr>code = 0, cmd_output = replicate 50001 CHR ''a''\<rparr>)"
    "runCmd_result quiet_world = (\<lambda>c args. \<lparr>code = 0, cmd_output = []\<rparr>)"
    by (simp_all add: chatty_world_def quiet_world_def)
  have q: "redactSecrets [] = []" by (simp add: redactSecrets_def)
  show ?thesis
    using output_ceiling [of "[Data ''one '', Data ''two'']" None "Some 3" "''node''"
        "[''/openclaw/dist/entry.js'', ''doctor'']" chatty_world "Some ''openclaw.doctor''" None
        "\<lparr>lastDoctorAt = None, lastDoctorOutput = None\<rparr>" 1700000000000]
      output_ceiling [of "[]" None None "''node''" "[]" quiet_world None None
        "\<lparr>lastDoctorAt = None, lastDoctorOutput = None\<rparr>" 1700000000000]
    unfolding e
    by (simp add: is_data_def data_of_def r redactSecrets_plain q Let_def)
qed

section \<open>Redaction\<close>

text \<open>
  What \<^verbatim>\<open>redactSecrets\<close> returns holds no token of the first four shapes: each pass leaves
  no match of its own pattern, and a later pass cannot make one, since the placeholder
  begins with a bracket that no pattern admits.
\<close>

lemma quiet_Cons: "quiet M (c # t) \<longleftrightarrow> M (c # t) = None \<and> quiet M t"
proof
  assume q: "quiet M (c # t)"
  have "M (drop 0 (c # t)) = None" using q unfolding quiet_def by blast
  moreover have "M (drop k t) = None" for k
    using q [unfolded quiet_def, rule_format, of "Suc k"] by simp
  ultimately show "M (c # t) = None \<and> quiet M t" by (simp add: quiet_def)
next
  assume a: "M (c # t) = None \<and> quiet M t"
  show "quiet M (c # t)"
    unfolding quiet_def
  proof
    fix k
    show "M (drop k (c # t)) = None"
      using a by (cases k) (simp_all add: quiet_def)
  qed
qed

lemma quiet_drop: "quiet M t \<Longrightarrow> quiet M (drop n t)"
  by (simp add: quiet_def)

lemma quiet_block:
  "(\<And>c rest. c \<in> set w \<Longrightarrow> M (c # rest) = None) \<Longrightarrow> quiet M R \<Longrightarrow> quiet M (w @ R)"
  by (induction w) (simp_all add: quiet_Cons)

lemma replace_all_prefix:
  "replace_all m s = p @ r' \<Longrightarrow> CHR ''['' \<notin> set p \<Longrightarrow> \<exists>r. s = p @ r \<and> r' = replace_all m r"
proof (induction p arbitrary: s r')
  case Nil
  then show ?case by simp
next
  case (Cons c p)
  show ?case
  proof (cases s)
    case Nil
    with Cons.prems show ?thesis by simp
  next
    case (Cons x xs)
    show ?thesis
    proof (cases "m (x # xs)")
      case None
      with Cons Cons.prems have "x = c" "replace_all m xs = p @ r'" by simp_all
      moreover from Cons.prems have "CHR ''['' \<notin> set p" by simp
      ultimately obtain r where "xs = p @ r" "r' = replace_all m r"
        using Cons.IH by blast
      then show ?thesis using Cons \<open>x = c\<close> by simp
    next
      case (Some n)
      with Cons Cons.prems show ?thesis by simp
    qed
  qed
qed

lemma replace_all_run:
  "\<not> P CHR ''['' \<Longrightarrow> length (takeWhile P (replace_all m s)) \<le> length (takeWhile P s)"
proof (induction m s rule: replace_all.induct)
  case (1 m)
  then show ?case by simp
next
  case (2 m x xs)
  show ?case
  proof (cases "m (x # xs)")
    case None
    then show ?thesis using 2 by simp
  next
    case (Some n)
    then show ?thesis using 2 by simp
  qed
qed


lemma lit_run_mono:
  assumes "length p = n" and "take n (replace_all m s) = p" and "CHR ''['' \<notin> set p"
    and "\<not> P CHR ''[''" and "10 \<le> length (takeWhile P (drop n (replace_all m s)))"
  shows "take n s = p \<and> 10 \<le> length (takeWhile P (drop n s))"
proof -
  have "replace_all m s = p @ drop n (replace_all m s)"
    using assms(2) append_take_drop_id [of n "replace_all m s"] by simp
  then obtain r where r: "s = p @ r" "drop n (replace_all m s) = replace_all m r"
    using replace_all_prefix [OF _ assms(3)] by blast
  have "length (takeWhile P (replace_all m r)) \<le> length (takeWhile P r)"
    using assms(4) by (rule replace_all_run)
  then show ?thesis using r assms(1,5) by simp
qed

lemma not_bracket:
  "\<not> cls_key CHR ''[''" "\<not> cls_gho CHR ''[''" "\<not> cls_xox CHR ''[''" "\<not> is_digit CHR ''[''"
  by (simp_all add: cls_key_def cls_gho_def cls_xox_def is_alpha_def is_digit_def)

lemma starts_with_take:
  "starts_with s ''sk-'' \<longleftrightarrow> take 3 s = ''sk-''"
  "starts_with s ''gho_'' \<longleftrightarrow> take 4 s = ''gho_''"
  "starts_with s ''xox'' \<longleftrightarrow> take 3 s = ''xox''"
  by (simp_all add: starts_with_def eval_nat_numeral)

lemma match_sk_mono: "match_sk (replace_all m s) \<noteq> None \<Longrightarrow> match_sk s \<noteq> None"
  using lit_run_mono [of "''sk-''" 3 m s cls_key] not_bracket(1)
  by (simp add: match_sk_def starts_with_take Let_def split: if_splits)

lemma match_gho_mono: "match_gho (replace_all m s) \<noteq> None \<Longrightarrow> match_gho s \<noteq> None"
  using lit_run_mono [of "''gho_''" 4 m s cls_gho] not_bracket(2)
  by (simp add: match_gho_def starts_with_take Let_def split: if_splits)

lemma take_xox:
  "take 3 s = ''xox'' \<and> take 2 (drop 3 s) = [k, CHR ''-''] \<longleftrightarrow> take 5 s = ''xox'' @ [k, CHR ''-'']"
proof (cases "3 \<le> length s")
  case True
  have 5: "take 5 s = take 3 s @ take 2 (drop 3 s)"
    using take_add [of 3 2 s] by simp
  have "length (take 3 s) = length ''xox''" using True by simp
  then have "take 3 s @ take 2 (drop 3 s) = ''xox'' @ [k, CHR ''-'']
      \<longleftrightarrow> take 3 s = ''xox'' \<and> take 2 (drop 3 s) = [k, CHR ''-'']"
    by (metis append_eq_append_conv)
  then show ?thesis unfolding 5 by blast
next
  case False
  then have "length (take 5 s) < 3" "take 2 (drop 3 s) = []" by simp_all
  then show ?thesis by auto
qed

lemma match_xox_iff:
  "match_xox s \<noteq> None \<longleftrightarrow>
     (\<exists>k \<in> set ''baprs''. take 5 s = ''xox'' @ [k, CHR ''-''])
     \<and> 10 \<le> length (takeWhile cls_xox (drop 5 s))"
  unfolding take_xox [symmetric]
  by (simp add: match_xox_def starts_with_take Let_def)

lemma match_xox_mono:
  assumes "match_xox (replace_all m s) \<noteq> None"
  shows "match_xox s \<noteq> None"
proof -
  from assms obtain k where k: "k \<in> set ''baprs''"
      "take 5 (replace_all m s) = ''xox'' @ [k, CHR ''-'']"
      "10 \<le> length (takeWhile cls_xox (drop 5 (replace_all m s)))"
    unfolding match_xox_iff by blast
  have nb: "CHR ''['' \<notin> set (''xox'' @ [k, CHR ''-''])" using k(1) by auto
  have "take 5 s = ''xox'' @ [k, CHR ''-''] \<and> 10 \<le> length (takeWhile cls_xox (drop 5 s))"
    using lit_run_mono [of "''xox'' @ [k, CHR ''-'']" 5 m s cls_xox, OF _ _ nb not_bracket(3)] k(2,3)
    by simp
  then show ?thesis unfolding match_xox_iff using k(1) by blast
qed

lemma match_telegram_mono:
  assumes "match_telegram (replace_all m s) \<noteq> None"
  shows "match_telegram s \<noteq> None"
proof -
  define d where "d = takeWhile is_digit (replace_all m s)"
  from assms have a: "5 \<le> length d" "take 1 (drop (length d) (replace_all m s)) = '':''"
      "10 \<le> length (takeWhile cls_key (drop (length d + 1) (replace_all m s)))"
    by (simp_all add: match_telegram_def Let_def d_def split: if_splits)
  have dig: "\<forall>c \<in> set d. is_digit c" unfolding d_def by (auto dest: set_takeWhileD)
  have "replace_all m s = d @ drop (length d) (replace_all m s)"
    unfolding d_def by (metis takeWhile_eq_take append_take_drop_id)
  moreover have "drop (length d) (replace_all m s)
      = '':'' @ drop (length d + 1) (replace_all m s)"
    using a(2) append_take_drop_id [of 1 "drop (length d) (replace_all m s)"]
    by (simp add: add.commute)
  ultimately have split: "replace_all m s = (d @ '':'') @ drop (length d + 1) (replace_all m s)"
    by simp
  have nb: "CHR ''['' \<notin> set (d @ '':'')" using dig not_bracket(4) by auto
  obtain r where r: "s = (d @ '':'') @ r"
      "drop (length d + 1) (replace_all m s) = replace_all m r"
    using replace_all_prefix [OF split nb] by blast
  have run: "10 \<le> length (takeWhile cls_key r)"
    using replace_all_run [of cls_key m r] not_bracket(1) a(3) r(2) by simp
  have td: "takeWhile is_digit s = d"
    unfolding r(1) using dig by (simp add: is_digit_def)
  show ?thesis
    unfolding match_telegram_def Let_def td using a(1) run by (simp add: r(1))
qed


lemma block_heads:
  assumes "c \<in> set ''[REDACTED]''"
  shows "match_sk (c # rest) = None" "match_gho (c # rest) = None"
    "match_xox (c # rest) = None" "match_telegram (c # rest) = None"
  using assms
  by (auto simp: match_sk_def match_gho_def match_xox_def match_telegram_def starts_with_def
        is_digit_def Let_def)

lemma quiet_replace_other:
  assumes mono: "\<And>m s. M (replace_all m s) \<noteq> None \<Longrightarrow> M s \<noteq> None"
    and head: "\<And>c rest. c \<in> set ''[REDACTED]'' \<Longrightarrow> M (c # rest) = None"
  shows "quiet M s \<Longrightarrow> quiet M (replace_all m s)"
proof (induction m s rule: replace_all.induct)
  case (1 m)
  then show ?case by simp
next
  case (2 m x xs)
  from "2.prems" have here: "M (x # xs) = None" and rest: "quiet M xs"
    by (simp_all add: quiet_Cons)
  show ?case
  proof (cases "m (x # xs)")
    case None
    have "quiet M (replace_all m xs)" using "2.IH"(1) None rest by simp
    moreover have "M (replace_all m (x # xs)) = None" using mono here by blast
    ultimately show ?thesis using None by (simp add: quiet_Cons)
  next
    case (Some n)
    have "quiet M (replace_all m (drop (n - 1) xs))"
      using "2.IH"(2) Some rest by (simp add: quiet_drop)
    then have "quiet M (''[REDACTED]'' @ replace_all m (drop (n - 1) xs))"
      using head by (intro quiet_block) auto
    then show ?thesis using Some by simp
  qed
qed

lemma quiet_replace_own:
  assumes mono: "\<And>m s. M (replace_all m s) \<noteq> None \<Longrightarrow> M s \<noteq> None"
    and head: "\<And>c rest. c \<in> set ''[REDACTED]'' \<Longrightarrow> M (c # rest) = None"
    and nil: "M [] = None"
  shows "quiet M (replace_all M s)"
  using assms
proof (induction M s rule: replace_all.induct)
  case (1 m)
  then show ?case by (simp add: quiet_def)
next
  case (2 m x xs)
  show ?case
  proof (cases "m (x # xs)")
    case None
    have "quiet m (replace_all m xs)" using "2.IH"(1) [OF None] "2.prems" by blast
    moreover have "m (replace_all m (x # xs)) = None" using "2.prems"(1) None by blast
    ultimately show ?thesis using None by (simp add: quiet_Cons)
  next
    case (Some n)
    have "quiet m (replace_all m (drop (n - 1) xs))"
      using "2.IH"(2) [OF Some] "2.prems" by blast
    then have "quiet m (''[REDACTED]'' @ replace_all m (drop (n - 1) xs))"
      using "2.prems"(2) by (intro quiet_block) auto
    then show ?thesis using Some by simp
  qed
qed

lemma match_nil:
  "match_sk [] = None" "match_gho [] = None" "match_xox [] = None" "match_telegram [] = None"
  by (simp_all add: match_sk_def match_gho_def match_xox_def match_telegram_def starts_with_def)

lemma quiet_nil: "M [] = None \<Longrightarrow> quiet M []"
  by (simp add: quiet_def)

lemma quiet_sk:
  "quiet match_sk s \<Longrightarrow> quiet match_sk (replace_all m s)"
  "quiet match_sk (replace_all match_sk s)"
proof -
  have mono: "match_sk u \<noteq> None" if "match_sk (replace_all m' u) \<noteq> None" for m' u
    using that by (rule match_sk_mono)
  have head: "match_sk (c # rest) = None" if "c \<in> set ''[REDACTED]''" for c rest
    using that by (rule block_heads)
  show "quiet match_sk s \<Longrightarrow> quiet match_sk (replace_all m s)"
    using mono head by (rule quiet_replace_other)
  show "quiet match_sk (replace_all match_sk s)"
    using mono head match_nil(1) by (rule quiet_replace_own)
qed

lemma quiet_gho:
  "quiet match_gho s \<Longrightarrow> quiet match_gho (replace_all m s)"
  "quiet match_gho (replace_all match_gho s)"
proof -
  have mono: "match_gho u \<noteq> None" if "match_gho (replace_all m' u) \<noteq> None" for m' u
    using that by (rule match_gho_mono)
  have head: "match_gho (c # rest) = None" if "c \<in> set ''[REDACTED]''" for c rest
    using that by (rule block_heads)
  show "quiet match_gho s \<Longrightarrow> quiet match_gho (replace_all m s)"
    using mono head by (rule quiet_replace_other)
  show "quiet match_gho (replace_all match_gho s)"
    using mono head match_nil(2) by (rule quiet_replace_own)
qed

lemma quiet_xox:
  "quiet match_xox s \<Longrightarrow> quiet match_xox (replace_all m s)"
  "quiet match_xox (replace_all match_xox s)"
proof -
  have mono: "match_xox u \<noteq> None" if "match_xox (replace_all m' u) \<noteq> None" for m' u
    using that by (rule match_xox_mono)
  have head: "match_xox (c # rest) = None" if "c \<in> set ''[REDACTED]''" for c rest
    using that by (rule block_heads)
  show "quiet match_xox s \<Longrightarrow> quiet match_xox (replace_all m s)"
    using mono head by (rule quiet_replace_other)
  show "quiet match_xox (replace_all match_xox s)"
    using mono head match_nil(3) by (rule quiet_replace_own)
qed

lemma quiet_telegram:
  "quiet match_telegram s \<Longrightarrow> quiet match_telegram (replace_all m s)"
  "quiet match_telegram (replace_all match_telegram s)"
proof -
  have mono: "match_telegram u \<noteq> None" if "match_telegram (replace_all m' u) \<noteq> None" for m' u
    using that by (rule match_telegram_mono)
  have head: "match_telegram (c # rest) = None" if "c \<in> set ''[REDACTED]''" for c rest
    using that by (rule block_heads)
  show "quiet match_telegram s \<Longrightarrow> quiet match_telegram (replace_all m s)"
    using mono head by (rule quiet_replace_other)
  show "quiet match_telegram (replace_all match_telegram s)"
    using mono head match_nil(4) by (rule quiet_replace_own)
qed

lemma redactSecrets_quiet:
  "quiet match_sk (redactSecrets t)" "quiet match_gho (redactSecrets t)"
  "quiet match_xox (redactSecrets t)" "quiet match_telegram (redactSecrets t)"
  by (simp_all add: redactSecrets_def quiet_nil match_nil quiet_sk quiet_gho quiet_xox
        quiet_telegram)

lemma run_covers: "list_all P r \<Longrightarrow> length r \<le> length (takeWhile P (r @ b))"
  by (induction r) simp_all

lemma token_matches:
  "sk_token tok \<Longrightarrow> match_sk (tok @ b) \<noteq> None"
  "gho_token tok \<Longrightarrow> match_gho (tok @ b) \<noteq> None"
  "xox_token tok \<Longrightarrow> match_xox (tok @ b) \<noteq> None"
proof -
  show "sk_token tok \<Longrightarrow> match_sk (tok @ b) \<noteq> None"
    using run_covers [of cls_key "drop 3 tok" b]
    by (auto simp: sk_token_def match_sk_def starts_with_take Let_def)
  show "gho_token tok \<Longrightarrow> match_gho (tok @ b) \<noteq> None"
    using run_covers [of cls_gho "drop 4 tok" b]
    by (auto simp: gho_token_def match_gho_def starts_with_take Let_def)
  show "xox_token tok \<Longrightarrow> match_xox (tok @ b) \<noteq> None"
    using run_covers [of cls_xox "drop 5 tok" b]
    unfolding match_xox_iff by (auto simp: xox_token_def)
qed

lemma telegram_token_matches:
  assumes "telegram_token tok"
  shows "match_telegram (tok @ b) \<noteq> None"
proof -
  define d where "d = takeWhile is_digit tok"
  from assms have a: "5 \<le> length d" "take 1 (drop (length d) tok) = '':''"
      "10 \<le> length (drop (length d + 1) tok)" "list_all cls_key (drop (length d + 1) tok)"
    by (simp_all add: telegram_token_def Let_def d_def)
  have dig: "\<forall>c \<in> set d. is_digit c" unfolding d_def by (auto dest: set_takeWhileD)
  have "tok = d @ drop (length d) tok"
    unfolding d_def by (metis takeWhile_eq_take append_take_drop_id)
  moreover have "drop (length d) tok = '':'' @ drop (length d + 1) tok"
    using a(2) append_take_drop_id [of 1 "drop (length d) tok"] by (simp add: add.commute)
  ultimately have tok: "tok = d @ '':'' @ drop (length d + 1) tok" by simp
  define r where "r = drop (length d + 1) tok"
  have t: "tok @ b = d @ CHR '':'' # (r @ b)" using tok by (simp add: r_def)
  have td: "takeWhile is_digit (tok @ b) = d"
    unfolding t using dig by (simp add: is_digit_def)
  have "10 \<le> length (takeWhile cls_key (r @ b))"
    using run_covers [of cls_key r b] a(3,4) by (simp add: r_def)
  then show ?thesis
    unfolding match_telegram_def Let_def td using a(1) by (simp add: t)
qed

lemma redactSecrets_no_token:
  assumes "secret_token tok"
  shows "redactSecrets t \<noteq> a @ tok @ b"
proof
  assume eq: "redactSecrets t = a @ tok @ b"
  have d: "drop (length a) (redactSecrets t) = tok @ b" by (simp add: eq)
  have "match_sk (tok @ b) = None" "match_gho (tok @ b) = None"
    "match_xox (tok @ b) = None" "match_telegram (tok @ b) = None"
    using redactSecrets_quiet [of t] unfolding quiet_def d [symmetric] by blast+
  then show False
    using assms token_matches [of tok b] telegram_token_matches [of tok b]
    by (auto simp: secret_token_def)
qed

lemma redact_example: "redactSecrets ''key sk-ABCDEFGHIJ0123 ok'' = ''key [REDACTED] ok''"
  by (simp add: redactSecrets_def match_sk_def match_gho_def match_xox_def match_telegram_def
        match_aa_def starts_with_def cls_key_def is_alpha_def is_digit_def is_js_space_def)

text \<open>
  Claim C5 fails on the code. \<^verbatim>\<open>POST /setup/api/pairing/approve\<close> returns the output of the
  command as it is: a key of the shape \<^verbatim>\<open>sk-...\<close> in it reaches the caller. The route
  beside it, \<^verbatim>\<open>POST /setup/api/devices/approve\<close>, passes the same output through
  \<^verbatim>\<open>redactSecrets\<close>.
\<close>
theorem pairing_approve_leaks:
  "pairing_approve leaky_world (Some ''telegram'') (Some ''ABC123'') =
     ([RunCmd ''node'' [''/openclaw/dist/entry.js'', ''pairing'', ''approve'', ''telegram'', ''ABC123'']],
      200, Output True ''key sk-ABCDEFGHIJ0123 ok'')
   \<and> match_sk ''sk-ABCDEFGHIJ0123 ok'' = Some 17
   \<and> devices_approve leaky_world (Some ''ABC123'') =
     ([RunCmd ''node'' [''/openclaw/dist/entry.js'', ''devices'', ''approve'', ''ABC123'']],
      200, Output True ''key [REDACTED] ok'')"
proof -
  have t: "trim ''ABC123'' = ''ABC123''"
    by (simp add: trim_def is_js_space_def)
  have s: "safe_ident ''ABC123''"
    by (simp add: safe_ident_def cls_key_def is_alpha_def is_digit_def)
  have m: "match_sk ''sk-ABCDEFGHIJ0123 ok'' = Some 17"
    by (simp add: match_sk_def starts_with_def cls_key_def is_alpha_def is_digit_def)
  show ?thesis
    by (simp add: pairing_approve_def devices_approve_def claw_reply_def clawArgs_def
          leaky_world_def quiet_world_def truthy_def or_empty_def t s m redact_example Let_def)
qed

section \<open>Concurrent starts\<close>

lemma sup_run_Cons: "sup_run s (e # evs) = sup_run (sup_step s e) evs"
  by (simp add: sup_run_def)

lemma sup_run_Nil: "sup_run s [] = s"
  by (simp add: sup_run_def)

lemma first_call:
  "sup_step stopped Call =
     stopped\<lparr>sup_gatewayProc := Some 0, sup_spawned := 1,
       sup_gatewayStarting := Some (0, AwaitingStart None), sup_attempts := 1,
       sup_callers := [Awaits 0]\<rparr>"
  by (simp add: sup_step_def ensureGatewayRunning_def startGateway_def stopped_def Let_def)

lemma later_call:
  "sup_configured s \<Longrightarrow> sup_gatewayProc s \<noteq> None \<Longrightarrow>
     sup_step s Call = s\<lparr>sup_callers := sup_callers s @ [Returned Ok]\<rparr>"
  by (simp add: sup_step_def ensureGatewayRunning_def)

lemma later_calls:
  "sup_configured s \<Longrightarrow> sup_gatewayProc s \<noteq> None \<Longrightarrow>
     sup_run s (replicate n Call) = s\<lparr>sup_callers := sup_callers s @ replicate n (Returned Ok)\<rparr>"
proof (induction n arbitrary: s)
  case 0
  then show ?case by (simp add: sup_run_Nil)
next
  case (Suc n)
  have "sup_run s (replicate (Suc n) Call) = sup_run (sup_step s Call) (replicate n Call)"
    by (simp add: sup_run_Cons)
  also have "\<dots> = sup_run (s\<lparr>sup_callers := sup_callers s @ [Returned Ok]\<rparr>) (replicate n Call)"
    using Suc.prems by (simp add: later_call)
  also have "\<dots> = s\<lparr>sup_callers := sup_callers s @ [Returned Ok] @ replicate n (Returned Ok)\<rparr>"
    using Suc.prems by (subst Suc.IH) simp_all
  finally show ?case by (simp add: replicate_app_Cons_same)
qed

lemma concurrent_calls:
  "sup_run stopped (replicate (Suc n) Call) =
     stopped\<lparr>sup_gatewayProc := Some 0, sup_spawned := 1,
       sup_gatewayStarting := Some (0, AwaitingStart None), sup_attempts := 1,
       sup_callers := Awaits 0 # replicate n (Returned Ok)\<rparr>"
proof -
  have "sup_run stopped (replicate (Suc n) Call) = sup_run (sup_step stopped Call) (replicate n Call)"
    by (simp add: sup_run_Cons)
  then show ?thesis
    unfolding first_call by (simp add: later_calls stopped_def)
qed

text \<open>
  Claim C1 fails on the code. Two calls of \<^verbatim>\<open>ensureGatewayRunning\<close> on a stopped,
  configured system spawn one process, but only the first waits for the start attempt:
  \<^verbatim>\<open>startGateway\<close> assigns \<^verbatim>\<open>gatewayProc\<close> before the first \<^verbatim>\<open>await\<close>, so the second call
  returns \<^verbatim>\<open>{ ok: true }\<close> at the test of \<^verbatim>\<open>gatewayProc\<close>, before it looks at
  \<^verbatim>\<open>gatewayStarting\<close>. When the gateway then fails to become ready, the first caller gets
  the rejection and the second has got success.
\<close>
theorem concurrent_callers_diverge:
  "sup_spawned (sup_run stopped [Call, Call, Resume, Ready False, DoctorDone]) = 1
   \<and> sup_callers (sup_run stopped [Call, Call, Resume, Ready False, DoctorDone])
       = [Awaits 0, Returned Ok]
   \<and> observed (sup_run stopped [Call, Call, Resume, Ready False, DoctorDone])
       = [Some (Rejected ''Error: Gateway did not become ready in time''), Some (Resolved Ok)]
   \<and> observed (sup_run stopped [Call, Resume, Call, Ready False, DoctorDone])
       = [Some (Rejected ''Error: Gateway did not become ready in time''), Some (Resolved Ok)]"
  by (simp add: sup_run_def sup_step_def ensureGatewayRunning_def startGateway_def stopped_def
        observed_def Let_def)

end
